theory Spec2Isabelle
  imports Complex_Main
begin

section \<open>Values exchanged by the components\<close>

text \<open>
  Request bodies, tool arguments, tool results and operation results are JavaScript
  values that came out of \<^verbatim>\<open>JSON.parse\<close> or go into \<^verbatim>\<open>JSON.stringify\<close>.
  Numbers are kept as rationals: the only arithmetic the code performs on them is the
  sign test of the input schema. An object is an association list read with
  \<open>map_of\<close>; a missing property (JavaScript's \<^verbatim>\<open>undefined\<close>) is \<open>None\<close>.
\<close>

datatype json =
    JNull
  | JBool bool
  | JNum rat
  | JStr string
  | JArr "json list"
  | JObj "(string \<times> json) list"

text \<open>
  A JSON text on the wire either parses to a value or makes \<^verbatim>\<open>JSON.parse\<close> throw.
  \<^verbatim>\<open>JSON.stringify\<close> followed by \<^verbatim>\<open>JSON.parse\<close> gives the value back.
\<close>

datatype json_text = Stringified json | Unparseable string

definition Error :: "string \<Rightarrow> json" where
  "Error msg = JObj [(''message'', JStr msg)]"

definition TypeError :: json where
  "TypeError = Error ''Cannot read properties of undefined''"

definition SyntaxError :: json where
  "SyntaxError = Error ''Unexpected token in JSON''"

definition JSON_stringify :: "json \<Rightarrow> json_text" where
  "JSON_stringify v = Stringified v"

text \<open>The argument is \<open>None\<close> when the code passes \<^verbatim>\<open>undefined\<close>; that throws too.\<close>

definition JSON_parse :: "json_text option \<Rightarrow> json + json" where
  "JSON_parse t =
     (case t of
        Some (Stringified v) \<Rightarrow> Inr v
      | Some (Unparseable s) \<Rightarrow> Inl SyntaxError
      | None \<Rightarrow> Inl SyntaxError)"

text \<open>
  Property access \<^verbatim>\<open>v.k\<close>: throws on \<^verbatim>\<open>null\<close>, reads the property of an object,
  and is \<^verbatim>\<open>undefined\<close> on numbers, booleans, strings and arrays.
\<close>

definition get_property :: "json \<Rightarrow> string \<Rightarrow> json + json option" where
  "get_property v k =
     (case v of
        JNull \<Rightarrow> Inl TypeError
      | JObj kvs \<Rightarrow> Inr (map_of kvs k)
      | _ \<Rightarrow> Inr None)"

definition truthy :: "json \<Rightarrow> bool" where
  "truthy v =
     (case v of
        JNull \<Rightarrow> False
      | JBool b \<Rightarrow> b
      | JNum r \<Rightarrow> r \<noteq> 0
      | JStr s \<Rightarrow> s \<noteq> []
      | _ \<Rightarrow> True)"

text \<open>\<^verbatim>\<open>e?.message || "unknown"\<close> for a thrown value \<open>e\<close>.\<close>

definition message_or_unknown :: "json \<Rightarrow> json" where
  "message_or_unknown e =
     (case e of
        JObj kvs \<Rightarrow>
          (case map_of kvs ''message'' of
             Some m \<Rightarrow> if truthy m then m else JStr ''unknown''
           | None \<Rightarrow> JStr ''unknown'')
      | _ \<Rightarrow> JStr ''unknown'')"

section \<open>The input contract (schemas.ts)\<close>

text \<open>
  The e-mail test of the schema library and the id generator \<^verbatim>\<open>nanoid\<close> are not part
  of the repository; they are parameters. \<open>nanoid_at env n\<close> is what the \<open>n\<close>-th call
  of \<^verbatim>\<open>nanoid()\<close> returns.
\<close>

record env =
  email_ok :: "string \<Rightarrow> bool"
  nanoid_at :: "nat \<Rightarrow> string"

record invoice_input =
  amount :: rat
  currency :: string
  customer_email :: string

datatype flattened_error = FlattenedError (formErrors: "string list") (fieldErrors: "string list")

definition z_number_nonnegative :: "json option \<Rightarrow> rat option" where
  "z_number_nonnegative v =
     (case v of Some (JNum r) \<Rightarrow> if 0 \<le> r then Some r else None | _ \<Rightarrow> None)"

definition z_string_length :: "nat \<Rightarrow> json option \<Rightarrow> string option" where
  "z_string_length n v =
     (case v of Some (JStr s) \<Rightarrow> if length s = n then Some s else None | _ \<Rightarrow> None)"

definition z_string_email :: "env \<Rightarrow> json option \<Rightarrow> string option" where
  "z_string_email env v =
     (case v of Some (JStr s) \<Rightarrow> if email_ok env s then Some s else None | _ \<Rightarrow> None)"

definition z_string :: "json option \<Rightarrow> string option" where
  "z_string v = (case v of Some (JStr s) \<Rightarrow> Some s | _ \<Rightarrow> None)"

text \<open>
  \<^verbatim>\<open>CreateInvoiceInput.safeParse(req.body)\<close>: the body must be an object whose three
  fields pass their checks; the parsed data holds exactly those three fields. The error
  lists every field that failed.
\<close>

definition CreateInvoiceInput_safeParse :: "env \<Rightarrow> json \<Rightarrow> flattened_error + invoice_input" where
  "CreateInvoiceInput_safeParse env body =
     (case body of
        JObj kvs \<Rightarrow>
          (let a = z_number_nonnegative (map_of kvs ''amount'');
               c = z_string_length 3 (map_of kvs ''currency'');
               e = z_string_email env (map_of kvs ''customer_email'')
           in case (a, c, e) of
                (Some a', Some c', Some e') \<Rightarrow>
                  Inr \<lparr>amount = a', currency = c', customer_email = e'\<rparr>
              | _ \<Rightarrow>
                  Inl (FlattenedError []
                    ((if a = None then [''amount''] else []) @
                     (if c = None then [''currency''] else []) @
                     (if e = None then [''customer_email''] else []))))
      | _ \<Rightarrow> Inl (FlattenedError [''Expected object''] []))"

section \<open>The operation registry and the submit handler (backend index.ts)\<close>

record op_entry =
  is_done :: bool
  events :: "string list"
  result :: "json option"

type_synonym registry = "string \<rightharpoonup> op_entry"

record tool_request =
  name :: string
  arguments :: json

datatype content_item = TextContent json_text | OtherContent

record call_tool_result =
  content :: "content_item list option"

definition text_of :: "content_item \<Rightarrow> json_text option" where
  "text_of c = (case c of TextContent t \<Rightarrow> Some t | OtherContent \<Rightarrow> None)"

text \<open>
  The background routine is suspended at one of its three \<^verbatim>\<open>await\<close>s, or it is over.
  A suspended request remembers what was sent.
\<close>

datatype stage =
    AwaitClient
  | AwaitCreate tool_request
  | AwaitGet tool_request
  | Finished

record task =
  t_opId :: string
  t_data :: invoice_input
  t_stage :: stage

record backend =
  progress :: registry
  tasks :: "task list"
  nanoid_calls :: nat

definition init :: backend where
  "init = \<lparr>progress = Map.empty, tasks = [], nanoid_calls = 0\<rparr>"

datatype http_response = Status400 flattened_error | Status202 string

text \<open>
  \<^verbatim>\<open>app.post("/api/invoices", ...)\<close>. The async function started at line 25 runs up to
  its first \<^verbatim>\<open>await\<close> and is then suspended; the handler goes on to send the response.
\<close>

definition post_invoices :: "env \<Rightarrow> json \<Rightarrow> backend \<Rightarrow> http_response \<times> backend" where
  "post_invoices env body st =
     (case CreateInvoiceInput_safeParse env body of
        Inl err \<Rightarrow> (Status400 err, st)
      | Inr parsed_data \<Rightarrow>
          (let opId = nanoid_at env (nanoid_calls st)
           in (Status202 opId,
               st\<lparr>progress := (progress st)(opId \<mapsto>
                      \<lparr>is_done = False, events = [''received''], result = None\<rparr>),
                    tasks := tasks st @
                      [\<lparr>t_opId = opId, t_data = parsed_data, t_stage = AwaitClient\<rparr>],
                    nanoid_calls := Suc (nanoid_calls st)\<rparr>)))"

section \<open>The background execution routine (index.ts, lines 25 to 75)\<close>

text \<open>
  \<^verbatim>\<open>progress.get(opId)!.events.push(label)\<close> throws a TypeError when the registry has no
  entry for the id.
\<close>

definition push_event :: "string \<Rightarrow> string \<Rightarrow> registry \<Rightarrow> json + registry" where
  "push_event opId label reg =
     (case reg opId of
        None \<Rightarrow> Inl TypeError
      | Some p \<Rightarrow> Inr (reg(opId \<mapsto> p\<lparr>events := events p @ [label]\<rparr>)))"

definition create_request :: "invoice_input \<Rightarrow> string \<Rightarrow> tool_request" where
  "create_request parsed_data idempotency_key =
     \<lparr>name = ''billing.create_invoice'',
      arguments = JObj [(''amount'', JNum (amount parsed_data)),
                        (''currency'', JStr (currency parsed_data)),
                        (''customer_email'', JStr (customer_email parsed_data)),
                        (''idempotency_key'', JStr idempotency_key)]\<rparr>"

text \<open>An \<^verbatim>\<open>undefined\<close> invoice id is dropped when the arguments are serialised.\<close>

definition get_request :: "json option \<Rightarrow> tool_request" where
  "get_request invId =
     \<lparr>name = ''billing.get_invoice'',
      arguments = JObj (case invId of None \<Rightarrow> [] | Some v \<Rightarrow> [(''invoice_id'', v)])\<rparr>"

text \<open>
  The three pieces of the \<^verbatim>\<open>try\<close> block, one per \<^verbatim>\<open>await\<close>. Each returns the registry
  as the piece left it, and either the stage the routine is suspended in next or the value
  thrown. What was pushed before a throw stays pushed.
\<close>

definition after_getBillingClient ::
  "string \<Rightarrow> invoice_input \<Rightarrow> registry \<Rightarrow> (json + stage) \<times> registry" where
  "after_getBillingClient opId parsed_data reg =
     (case push_event opId ''connecting-mcp'' reg of
        Inl e \<Rightarrow> (Inl e, reg)
      | Inr reg' \<Rightarrow> (Inr (AwaitCreate (create_request parsed_data opId)), reg'))"

definition after_create ::
  "string \<Rightarrow> call_tool_result \<Rightarrow> registry \<Rightarrow> (json + stage) \<times> registry" where
  "after_create opId createResp reg =
     (case push_event opId ''invoice-created'' reg of
        Inl e \<Rightarrow> (Inl e, reg)
      | Inr reg' \<Rightarrow>
          (case content createResp of
             None \<Rightarrow> (Inl (Error ''MCP error creating invoice''), reg')
           | Some [] \<Rightarrow> (Inl (Error ''MCP error creating invoice''), reg')
           | Some (c # cs) \<Rightarrow>
               (case JSON_parse (text_of c) of
                  Inl e \<Rightarrow> (Inl e, reg')
                | Inr createResult \<Rightarrow>
                    (case get_property createResult ''invoice_id'' of
                       Inl e \<Rightarrow> (Inl e, reg')
                     | Inr invId \<Rightarrow> (Inr (AwaitGet (get_request invId)), reg')))))"

definition after_get ::
  "string \<Rightarrow> call_tool_result \<Rightarrow> registry \<Rightarrow> (json + stage) \<times> registry" where
  "after_get opId getResp reg =
     (case push_event opId ''invoice-fetched'' reg of
        Inl e \<Rightarrow> (Inl e, reg)
      | Inr reg' \<Rightarrow>
          (case reg' opId of
             None \<Rightarrow> (Inl TypeError, reg')
           | Some p \<Rightarrow>
               (case (case content getResp of
                        None \<Rightarrow> Inr JNull
                      | Some [] \<Rightarrow> Inl TypeError
                      | Some (c # cs) \<Rightarrow> JSON_parse (text_of c)) of
                  Inl e \<Rightarrow> (Inl e, reg')
                | Inr r \<Rightarrow>
                    (Inr Finished,
                     reg'(opId \<mapsto> \<lparr>is_done = True, events = events p, result = Some r\<rparr>)))))"

text \<open>
  The \<^verbatim>\<open>catch\<close> block. It reads the entry itself, so with no entry it throws in turn; that
  second throw is caught by nothing (an unhandled rejection) and is the \<open>Inl\<close> here.
\<close>

definition catch_block :: "string \<Rightarrow> json \<Rightarrow> registry \<Rightarrow> json + registry" where
  "catch_block opId e reg =
     (case reg opId of
        None \<Rightarrow> Inl TypeError
      | Some p \<Rightarrow>
          Inr (reg(opId \<mapsto>
            \<lparr>is_done = True, events = events p,
             result = Some (JObj [(''error'', message_or_unknown e)])\<rparr>)))"

text \<open>How the promise a task is waiting for was settled.\<close>

datatype settled =
    ClientConnected
  | ToolResult call_tool_result
  | Rejected json

text \<open>
  The part of the \<^verbatim>\<open>try\<close> block that runs when the awaited promise settles. \<open>None\<close>: the
  settlement is not the one the task waits for (or the task is over), nothing runs.
\<close>

definition try_block ::
  "task \<Rightarrow> settled \<Rightarrow> registry \<Rightarrow> ((json + stage) \<times> registry) option" where
  "try_block t s reg =
     (case (t_stage t, s) of
        (Finished, _) \<Rightarrow> None
      | (_, Rejected e) \<Rightarrow> Some (Inl e, reg)
      | (AwaitClient, ClientConnected) \<Rightarrow> Some (after_getBillingClient (t_opId t) (t_data t) reg)
      | (AwaitCreate req, ToolResult r) \<Rightarrow> Some (after_create (t_opId t) r reg)
      | (AwaitGet req, ToolResult r) \<Rightarrow> Some (after_get (t_opId t) r reg)
      | _ \<Rightarrow> None)"

text \<open>One resumption of the routine: the \<^verbatim>\<open>try\<close> piece, and the \<^verbatim>\<open>catch\<close> block on a throw.\<close>

definition resume_task :: "task \<Rightarrow> settled \<Rightarrow> registry \<Rightarrow> json + (task \<times> registry)" where
  "resume_task t s reg =
     (case try_block t s reg of
        None \<Rightarrow> Inr (t, reg)
      | Some (Inr stage', reg') \<Rightarrow> Inr (t\<lparr>t_stage := stage'\<rparr>, reg')
      | Some (Inl e, reg') \<Rightarrow>
          (case catch_block (t_opId t) e reg' of
             Inl e' \<Rightarrow> Inl e'
           | Inr reg'' \<Rightarrow> Inr (t\<lparr>t_stage := Finished\<rparr>, reg'')))"

text \<open>
  What can happen to the backend process: a request is submitted, or the promise that
  the \<open>i\<close>-th routine awaits settles. \<open>Inl\<close> is an unhandled rejection.
\<close>

datatype event = Submit json | Settle nat settled

definition step :: "env \<Rightarrow> event \<Rightarrow> backend \<Rightarrow> json + backend" where
  "step env ev st =
     (case ev of
        Submit body \<Rightarrow> Inr (snd (post_invoices env body st))
      | Settle i s \<Rightarrow>
          (if i < length (tasks st) then
             (case resume_task (tasks st ! i) s (progress st) of
                Inl e \<Rightarrow> Inl e
              | Inr (t', reg') \<Rightarrow> Inr (st\<lparr>progress := reg', tasks := (tasks st)[i := t']\<rparr>))
           else Inr st))"

fun run :: "env \<Rightarrow> event list \<Rightarrow> backend \<Rightarrow> json + backend" where
  "run env [] st = Inr st"
| "run env (ev # evs) st =
     (case step env ev st of Inl e \<Rightarrow> Inl e | Inr st' \<Rightarrow> run env evs st')"

section \<open>The billing tool server (servers/billing/src/index.ts)\<close>

record invoice = invoice_input +
  status :: string

type_synonym invoice_store = "string \<rightharpoonup> invoice"

record create_args = invoice_input +
  idempotency_key :: string

definition text_result :: "json \<Rightarrow> call_tool_result" where
  "text_result v = \<lparr>content = Some [TextContent (JSON_stringify v)]\<rparr>"

text \<open>The handler of \<^verbatim>\<open>billing.create_invoice\<close>; it returns the store as it leaves it.\<close>

definition create_invoice :: "create_args \<Rightarrow> invoice_store \<Rightarrow> call_tool_result \<times> invoice_store" where
  "create_invoice args invoices =
     (if idempotency_key args \<in> dom invoices then
        (text_result (JObj [(''invoice_id'', JStr (idempotency_key args)),
                            (''reused'', JBool True)]),
         invoices)
      else
        (text_result (JObj [(''invoice_id'', JStr (idempotency_key args)),
                            (''reused'', JBool False)]),
         invoices(idempotency_key args \<mapsto>
           \<lparr>amount = amount args, currency = currency args,
            customer_email = customer_email args, status = ''draft''\<rparr>)))"

text \<open>The handler of \<^verbatim>\<open>billing.get_invoice\<close>; it only reads the store.\<close>

definition get_invoice :: "string \<Rightarrow> invoice_store \<Rightarrow> call_tool_result" where
  "get_invoice invoice_id invoices =
     (case invoices invoice_id of
        None \<Rightarrow> text_result (JObj [(''error'', JStr ''NOT_FOUND'')])
      | Some stored \<Rightarrow>
          text_result (JObj [(''invoice'',
            JObj [(''id'', JStr invoice_id),
                  (''amount'', JNum (amount stored)),
                  (''currency'', JStr (currency stored)),
                  (''customer_email'', JStr (customer_email stored)),
                  (''status'', JStr (status stored))])]))"

text \<open>
  A \<^verbatim>\<open>tools/call\<close> request as the server library serves it: the tool is looked up by
  name, the arguments are checked against the tool's \<^verbatim>\<open>inputSchema\<close>, and the handler
  runs on arguments that pass. A request that does not reach a handler is reported to
  the caller as a failed request and leaves the store alone.
\<close>

definition tools_call :: "env \<Rightarrow> tool_request \<Rightarrow> invoice_store \<Rightarrow> settled \<times> invoice_store" where
  "tools_call env req invoices =
     (case arguments req of
        JObj kvs \<Rightarrow>
          (if name req = ''billing.create_invoice'' then
             (case (z_number_nonnegative (map_of kvs ''amount''),
                    z_string_length 3 (map_of kvs ''currency''),
                    z_string_email env (map_of kvs ''customer_email''),
                    z_string (map_of kvs ''idempotency_key'')) of
                (Some a, Some c, Some e, Some k) \<Rightarrow>
                  (case create_invoice
                          \<lparr>amount = a, currency = c, customer_email = e, idempotency_key = k\<rparr>
                          invoices of
                     (r, invoices') \<Rightarrow> (ToolResult r, invoices'))
              | _ \<Rightarrow> (Rejected (Error ''Invalid arguments''), invoices))
           else if name req = ''billing.get_invoice'' then
             (case z_string (map_of kvs ''invoice_id'') of
                Some i \<Rightarrow> (ToolResult (get_invoice i invoices), invoices)
              | None \<Rightarrow> (Rejected (Error ''Invalid arguments''), invoices))
           else (Rejected (Error ''Tool not found''), invoices))
      | _ \<Rightarrow> (Rejected (Error ''Invalid arguments''), invoices))"

text \<open>
  The backend and the tool server together: the promise that the \<open>i\<close>-th routine awaits
  is settled the way a working connection settles it. The client connects, and a
  pending request is answered by the tool server.
\<close>

definition deliver ::
  "env \<Rightarrow> nat \<Rightarrow> backend \<times> invoice_store \<Rightarrow> json + (backend \<times> invoice_store)" where
  "deliver env i sys =
     (case sys of (st, invoices) \<Rightarrow>
        (if i < length (tasks st) then
           (case (case t_stage (tasks st ! i) of
                    AwaitClient \<Rightarrow> Some (ClientConnected, invoices)
                  | AwaitCreate req \<Rightarrow> Some (tools_call env req invoices)
                  | AwaitGet req \<Rightarrow> Some (tools_call env req invoices)
                  | Finished \<Rightarrow> None) of
              None \<Rightarrow> Inr (st, invoices)
            | Some (s, invoices') \<Rightarrow>
                (case step env (Settle i s) st of
                   Inl e \<Rightarrow> Inl e
                 | Inr st' \<Rightarrow> Inr (st', invoices')))
         else Inr (st, invoices)))"

fun deliver_times ::
  "env \<Rightarrow> nat \<Rightarrow> nat \<Rightarrow> backend \<times> invoice_store \<Rightarrow> json + (backend \<times> invoice_store)" where
  "deliver_times env i 0 sys = Inr sys"
| "deliver_times env i (Suc n) sys =
     (case deliver env i sys of Inl e \<Rightarrow> Inl e | Inr sys' \<Rightarrow> deliver_times env i n sys')"

section \<open>The progress stream (index.ts, lines 81 to 104)\<close>

text \<open>
  What \<^verbatim>\<open>res.write\<close> puts on the channel, by its \<^verbatim>\<open>event:\<close> line; the data of each
  message is kept as the value that is serialised.
\<close>

datatype sse_message =
    Ping nat
  | Progress "string list" bool
  | Result "json option"

record subscription =
  sub_opId :: string
  interval_set :: bool
  ended :: bool
  written :: "sse_message list"

text \<open>The handler itself: one ping is written and the interval is set.\<close>

definition get_stream :: "nat \<Rightarrow> string \<Rightarrow> subscription" where
  "get_stream now opId =
     \<lparr>sub_opId = opId, interval_set = True, ended = False, written = [Ping now]\<rparr>"

text \<open>The interval's callback, run against the registry as it is at that tick.\<close>

definition tick :: "registry \<Rightarrow> subscription \<Rightarrow> subscription" where
  "tick reg sub =
     (case reg (sub_opId sub) of
        None \<Rightarrow> sub
      | Some p \<Rightarrow>
          (let sub' = sub\<lparr>written := written sub @ [Progress (events p) (is_done p)]\<rparr>
           in if is_done p then
                sub'\<lparr>written := written sub' @ [Result (result p)],
                     interval_set := False, ended := True\<rparr>
              else sub'))"

text \<open>
  What happens to a subscription: the timer fires (only while it is set), or the
  caller goes away and the \<^verbatim>\<open>close\<close> listener clears the timer.
\<close>

datatype sub_event = Tick registry | Close

definition sub_step :: "sub_event \<Rightarrow> subscription \<Rightarrow> subscription" where
  "sub_step ev sub =
     (case ev of
        Tick reg \<Rightarrow> if interval_set sub then tick reg sub else sub
      | Close \<Rightarrow> sub\<lparr>interval_set := False\<rparr>)"

fun sub_run :: "sub_event list \<Rightarrow> subscription \<Rightarrow> subscription" where
  "sub_run [] sub = sub"
| "sub_run (ev # evs) sub = sub_run evs (sub_step ev sub)"

definition is_progress :: "sse_message \<Rightarrow> bool" where
  "is_progress m = (case m of Progress es d \<Rightarrow> True | _ \<Rightarrow> False)"

definition is_result :: "sse_message \<Rightarrow> bool" where
  "is_result m = (case m of Result r \<Rightarrow> True | _ \<Rightarrow> False)"

section \<open>The literal scenario and the invariants of the backend\<close>

text \<open>
  An environment to evaluate the scenario in: an e-mail test that accepts \<^verbatim>\<open>a@b.com\<close>,
  and an id generator that returns \<^verbatim>\<open>op1\<close> first and never repeats itself.
\<close>

definition scenario_env :: env where
  "scenario_env =
     \<lparr>email_ok = (\<lambda>s. CHR ''@'' \<in> set s),
      nanoid_at = (\<lambda>n. ''op'' @ replicate (Suc n) (CHR ''1''))\<rparr>"

definition scenario_body :: "rat \<Rightarrow> json" where
  "scenario_body a =
     JObj [(''amount'', JNum a), (''currency'', JStr ''USD''),
           (''customer_email'', JStr ''a@b.com'')]"

text \<open>The registry and the invoice store in the outcome of a run of both processes.\<close>

definition registry_of :: "json + (backend \<times> invoice_store) \<Rightarrow> registry" where
  "registry_of r = (case r of Inl e \<Rightarrow> Map.empty | Inr (st, invoices) \<Rightarrow> progress st)"

definition store_of :: "json + (backend \<times> invoice_store) \<Rightarrow> invoice_store" where
  "store_of r = (case r of Inl e \<Rightarrow> Map.empty | Inr (st, invoices) \<Rightarrow> invoices)"

text \<open>
  The scenario: the request is submitted to a fresh backend, beside a tool server with an
  empty store, and the promise the routine waits for is settled \<open>n\<close> times.
\<close>

definition scenario_system :: "env \<Rightarrow> nat \<Rightarrow> json + (backend \<times> invoice_store)" where
  "scenario_system env n =
     deliver_times env 0 n (snd (post_invoices env (scenario_body 100) init), Map.empty)"

text \<open>
  A subscription has written at most one result message, as its last message, and has
  then stopped its timer and ended the response.
\<close>

definition terminal_once :: "subscription \<Rightarrow> bool" where
  "terminal_once sub =
     (if ended sub
      then \<not> interval_set sub \<and> written sub \<noteq> [] \<and> is_result (last (written sub)) \<and>
           filter is_result (butlast (written sub)) = []
      else filter is_result (written sub) = [])"

text \<open>Every routine's operation has a registry entry.\<close>

definition tasks_registered :: "backend \<Rightarrow> bool" where
  "tasks_registered st = list_all (\<lambda>t. progress st (t_opId t) \<noteq> None) (tasks st)"

text \<open>
  The \<open>i\<close>-th routine belongs to the \<open>i\<close>-th id, the registry holds exactly these ids,
  an entry is done exactly when its routine is over, and it has a result exactly when it
  is done.
\<close>

definition entry_matches :: "registry \<Rightarrow> task \<Rightarrow> bool" where
  "entry_matches reg t =
     (case reg (t_opId t) of
        None \<Rightarrow> False
      | Some p \<Rightarrow> is_done p = (t_stage t = Finished) \<and> is_done p = (result p \<noteq> None))"

definition consistent :: "env \<Rightarrow> backend \<Rightarrow> bool" where
  "consistent env st =
     (map t_opId (tasks st) = map (nanoid_at env) [0..<nanoid_calls st] \<and>
      dom (progress st) = nanoid_at env ` {..<nanoid_calls st} \<and>
      list_all (entry_matches (progress st)) (tasks st))"

text \<open>
  An environment in which \<^verbatim>\<open>nanoid()\<close> returns the same id at every call, to see what
  the handler does on a collision.
\<close>

definition colliding_env :: env where
  "colliding_env =
     \<lparr>email_ok = (\<lambda>s. CHR ''@'' \<in> set s), nanoid_at = (\<lambda>n. ''op1'')\<rparr>"

text \<open>The registry in the outcome of a run of the backend.\<close>

definition progress_after :: "json + backend \<Rightarrow> registry" where
  "progress_after r = (case r of Inl e \<Rightarrow> Map.empty | Inr st \<Rightarrow> progress st)"

section \<open>Submission\<close>

lemma scenario_body_parses:
  "email_ok env ''a@b.com'' \<Longrightarrow>
     CreateInvoiceInput_safeParse env (scenario_body a) =
       (if 0 \<le> a
        then Inr \<lparr>amount = a, currency = ''USD'', customer_email = ''a@b.com''\<rparr>
        else Inl (FlattenedError [] [''amount'']))"
  by (simp add: CreateInvoiceInput_safeParse_def scenario_body_def z_number_nonnegative_def
      z_string_length_def z_string_email_def)

lemma scenario_env_email: "email_ok scenario_env ''a@b.com''"
  by (simp add: scenario_env_def)

lemma scenario_env_first_id: "nanoid_at scenario_env 0 = ''op1''"
  by (simp add: scenario_env_def)

text \<open>
  Claim C1. When the request body passes the input contract, the handler answers 202
  with the id that \<^verbatim>\<open>nanoid()\<close> just returned; in the state it leaves behind, the
  registry entry of that id is pending (not done, one event \<^verbatim>\<open>received\<close>, no result)
  and the routine of the operation is still suspended at its first \<^verbatim>\<open>await\<close>, before
  any tool call has been sent.
\<close>

theorem submit_returns_id_while_pending:
  assumes "CreateInvoiceInput_safeParse env body = Inr d"
  shows "fst (post_invoices env body st) = Status202 (nanoid_at env (nanoid_calls st)) \<and>
         progress (snd (post_invoices env body st)) (nanoid_at env (nanoid_calls st)) =
           Some \<lparr>is_done = False, events = [''received''], result = None\<rparr> \<and>
         tasks (snd (post_invoices env body st)) =
           tasks st @
             [\<lparr>t_opId = nanoid_at env (nanoid_calls st), t_data = d, t_stage = AwaitClient\<rparr>]"
  using assms by (simp add: post_invoices_def Let_def)

theorem submit_returns_id_while_pending_witness:
  "CreateInvoiceInput_safeParse scenario_env (scenario_body 100) =
     Inr \<lparr>amount = 100, currency = ''USD'', customer_email = ''a@b.com''\<rparr> \<and>
   fst (post_invoices scenario_env (scenario_body 100) init) = Status202 ''op1'' \<and>
   progress (snd (post_invoices scenario_env (scenario_body 100) init)) ''op1'' =
     Some \<lparr>is_done = False, events = [''received''], result = None\<rparr> \<and>
   tasks (snd (post_invoices scenario_env (scenario_body 100) init)) =
     [\<lparr>t_opId = ''op1'',
       t_data = \<lparr>amount = 100, currency = ''USD'', customer_email = ''a@b.com''\<rparr>,
       t_stage = AwaitClient\<rparr>]"
proof -
  have parsed: "CreateInvoiceInput_safeParse scenario_env (scenario_body 100) =
      Inr \<lparr>amount = 100, currency = ''USD'', customer_email = ''a@b.com''\<rparr>"
    by (simp add: scenario_body_parses [OF scenario_env_email])
  from submit_returns_id_while_pending [OF parsed, of init] parsed show ?thesis
    by (simp add: init_def scenario_env_first_id)
qed

text \<open>
  Claim C6. When the request body fails the input contract, the handler answers 400
  with the validation error and leaves the whole backend state as it was: the registry
  has no new entry, no routine was started, and \<^verbatim>\<open>nanoid()\<close> was not called.
\<close>

theorem invalid_submit_creates_nothing:
  assumes "CreateInvoiceInput_safeParse env body = Inl err"
  shows "post_invoices env body st = (Status400 err, st)"
  using assms by (simp add: post_invoices_def)

theorem invalid_submit_creates_nothing_witness:
  "CreateInvoiceInput_safeParse scenario_env (scenario_body (- 5)) =
     Inl (FlattenedError [] [''amount'']) \<and>
   post_invoices scenario_env (scenario_body (- 5)) init =
     (Status400 (FlattenedError [] [''amount'']), init)"
proof -
  have failed: "CreateInvoiceInput_safeParse scenario_env (scenario_body (- 5)) =
      Inl (FlattenedError [] [''amount''])"
    by (simp add: scenario_body_parses [OF scenario_env_email])
  from invalid_submit_creates_nothing [OF failed, of init] failed show ?thesis
    by simp
qed

text \<open>
  Claim C10. The contract asks for a nonnegative amount. The request with the fields of
  the scenario and amount \<open>a\<close> is accepted exactly when \<open>0 \<le> a\<close>, so amount zero is
  accepted: an entry is created and its id returned. A negative amount is answered 400
  and nothing is created.
\<close>

theorem zero_amount_is_accepted:
  assumes "email_ok env ''a@b.com''"
  shows "post_invoices env (scenario_body 0) st =
           (Status202 (nanoid_at env (nanoid_calls st)),
            st\<lparr>progress := (progress st)(nanoid_at env (nanoid_calls st) \<mapsto>
                   \<lparr>is_done = False, events = [''received''], result = None\<rparr>),
                 tasks := tasks st @
                   [\<lparr>t_opId = nanoid_at env (nanoid_calls st),
                     t_data = \<lparr>amount = 0, currency = ''USD'', customer_email = ''a@b.com''\<rparr>,
                     t_stage = AwaitClient\<rparr>],
                 nanoid_calls := Suc (nanoid_calls st)\<rparr>) \<and>
         (\<forall>a. (\<exists>opId. fst (post_invoices env (scenario_body a) st) = Status202 opId) = (0 \<le> a)) \<and>
         (\<forall>a. (post_invoices env (scenario_body a) st =
                 (Status400 (FlattenedError [] [''amount'']), st)) = (a < 0))"
  by (auto simp add: post_invoices_def Let_def scenario_body_parses [OF assms])

theorem zero_amount_is_accepted_witness:
  "email_ok scenario_env ''a@b.com'' \<and>
   fst (post_invoices scenario_env (scenario_body 0) init) = Status202 ''op1'' \<and>
   progress (snd (post_invoices scenario_env (scenario_body 0) init)) ''op1'' =
     Some \<lparr>is_done = False, events = [''received''], result = None\<rparr>"
  using zero_amount_is_accepted [OF scenario_env_email, of init]
  by (simp add: init_def scenario_env_first_id scenario_env_email)

section \<open>Idempotency of the tool server\<close>

text \<open>
  Claim C7. After a call of \<^verbatim>\<open>billing.create_invoice\<close> with some idempotency key, from
  any store, the key is in the store, and a second call with the same key (whatever its
  other arguments) answers with one text item holding the object with the same invoice id
  as the first answer and \<^verbatim>\<open>reused: true\<close>, and returns the store unchanged.
\<close>

theorem create_invoice_idempotent:
  assumes "create_invoice args1 invoices0 = (r1, invoices1)"
    and "idempotency_key args2 = idempotency_key args1"
  shows "create_invoice args2 invoices1 =
           (\<lparr>content = Some [TextContent (Stringified
               (JObj [(''invoice_id'', JStr (idempotency_key args1)),
                      (''reused'', JBool True)]))]\<rparr>,
            invoices1) \<and>
         r1 = \<lparr>content = Some [TextContent (Stringified
                (JObj [(''invoice_id'', JStr (idempotency_key args1)),
                       (''reused'', JBool (idempotency_key args1 \<in> dom invoices0))]))]\<rparr> \<and>
         idempotency_key args1 \<in> dom invoices1 \<and>
         dom invoices1 = insert (idempotency_key args1) (dom invoices0)"
  using assms
  by (auto simp add: create_invoice_def text_result_def JSON_stringify_def split: if_splits)

theorem create_invoice_idempotent_witness:
  "create_invoice
     \<lparr>amount = 100, currency = ''USD'', customer_email = ''a@b.com'', idempotency_key = ''k1''\<rparr>
     Map.empty =
     (\<lparr>content = Some [TextContent (Stringified
         (JObj [(''invoice_id'', JStr ''k1''), (''reused'', JBool False)]))]\<rparr>,
      [''k1'' \<mapsto> \<lparr>amount = 100, currency = ''USD'', customer_email = ''a@b.com'',
                  status = ''draft''\<rparr>]) \<and>
   create_invoice
     \<lparr>amount = 7, currency = ''EUR'', customer_email = ''c@d.org'', idempotency_key = ''k1''\<rparr>
     [''k1'' \<mapsto> \<lparr>amount = 100, currency = ''USD'', customer_email = ''a@b.com'',
                 status = ''draft''\<rparr>] =
     (\<lparr>content = Some [TextContent (Stringified
         (JObj [(''invoice_id'', JStr ''k1''), (''reused'', JBool True)]))]\<rparr>,
      [''k1'' \<mapsto> \<lparr>amount = 100, currency = ''USD'', customer_email = ''a@b.com'',
                  status = ''draft''\<rparr>])"
proof -
  have first: "create_invoice
      \<lparr>amount = 100, currency = ''USD'', customer_email = ''a@b.com'', idempotency_key = ''k1''\<rparr>
      Map.empty =
      (\<lparr>content = Some [TextContent (Stringified
          (JObj [(''invoice_id'', JStr ''k1''), (''reused'', JBool False)]))]\<rparr>,
       [''k1'' \<mapsto> \<lparr>amount = 100, currency = ''USD'', customer_email = ''a@b.com'',
                   status = ''draft''\<rparr>])"
    by (simp add: create_invoice_def text_result_def JSON_stringify_def)
  from create_invoice_idempotent [OF first,
      of "\<lparr>amount = 7, currency = ''EUR'', customer_email = ''c@d.org'', idempotency_key = ''k1''\<rparr>"]
    first show ?thesis by simp
qed

section \<open>The progress stream\<close>

lemma sub_step_opId: "sub_opId (sub_step ev sub) = sub_opId sub"
  by (cases ev) (simp_all add: sub_step_def tick_def Let_def split: option.splits)

lemma sub_run_opId: "sub_opId (sub_run evs sub) = sub_opId sub"
  by (induction evs arbitrary: sub) (simp_all add: sub_step_opId)

lemma tick_unknown: "reg (sub_opId sub) = None \<Longrightarrow> tick reg sub = sub"
  by (simp add: tick_def)

lemma tick_done:
  "reg (sub_opId sub) = Some p \<Longrightarrow> is_done p \<Longrightarrow>
     tick reg sub = sub\<lparr>written := written sub @ [Progress (events p) True, Result (result p)],
                        interval_set := False, ended := True\<rparr>"
  by (simp add: tick_def Let_def)

lemma tick_pending:
  "reg (sub_opId sub) = Some p \<Longrightarrow> \<not> is_done p \<Longrightarrow>
     tick reg sub = sub\<lparr>written := written sub @ [Progress (events p) False]\<rparr>"
  by (simp add: tick_def Let_def)

lemma sub_step_stopped: "\<not> interval_set sub \<Longrightarrow> sub_step ev sub = sub"
  by (cases ev) (simp_all add: sub_step_def)

lemma sub_run_stopped: "\<not> interval_set sub \<Longrightarrow> sub_run evs sub = sub"
  by (induction evs) (simp_all add: sub_step_stopped)

lemma sub_step_terminal_once: "terminal_once sub \<Longrightarrow> terminal_once (sub_step ev sub)"
proof (cases ev)
  case Close
  then show "terminal_once sub \<Longrightarrow> terminal_once (sub_step ev sub)"
    by (auto simp add: sub_step_def terminal_once_def split: if_splits)
next
  case (Tick reg)
  assume inv: "terminal_once sub"
  show "terminal_once (sub_step ev sub)"
  proof (cases "interval_set sub")
    case False
    with inv show ?thesis by (simp add: sub_step_stopped)
  next
    case True
    with inv have still_open: "\<not> ended sub" "filter is_result (written sub) = []"
      by (auto simp add: terminal_once_def split: if_splits)
    show ?thesis
    proof (cases "reg (sub_opId sub)")
      case None
      with Tick True inv show ?thesis by (simp add: sub_step_def tick_unknown)
    next
      case (Some p)
      show ?thesis
      proof (cases "is_done p")
        case fin: True
        have "butlast (written sub @ [Progress (events p) True, Result (result p)]) =
            written sub @ [Progress (events p) True]"
          by (simp add: butlast_append)
        with Tick True Some fin still_open show ?thesis
          by (simp add: sub_step_def tick_done terminal_once_def is_result_def)
      next
        case False
        with Tick True Some still_open show ?thesis
          by (simp add: sub_step_def tick_pending terminal_once_def is_result_def)
      qed
    qed
  qed
qed

lemma sub_run_terminal_once: "terminal_once sub \<Longrightarrow> terminal_once (sub_run evs sub)"
  by (induction evs arbitrary: sub) (simp_all add: sub_step_terminal_once)

lemma get_stream_terminal_once: "terminal_once (get_stream now opId)"
  by (simp add: terminal_once_def get_stream_def is_result_def)

lemma sub_step_written:
  "\<exists>ms. written (sub_step ev sub) = written sub @ ms \<and>
        (\<forall>m\<in>set ms. is_progress m \<or> is_result m)"
  by (cases ev)
    (auto simp add: sub_step_def tick_def Let_def is_progress_def is_result_def
      split: option.splits)

lemma sub_run_written:
  "\<exists>ms. written (sub_run evs sub) = written sub @ ms \<and>
        (\<forall>m\<in>set ms. is_progress m \<or> is_result m)"
proof (induction evs arbitrary: sub)
  case Nil
  show ?case by simp
next
  case (Cons ev evs)
  obtain ms1 where 1: "written (sub_step ev sub) = written sub @ ms1"
      "\<forall>m\<in>set ms1. is_progress m \<or> is_result m"
    using sub_step_written by blast
  obtain ms2 where 2: "written (sub_run evs (sub_step ev sub)) = written (sub_step ev sub) @ ms2"
      "\<forall>m\<in>set ms2. is_progress m \<or> is_result m"
    using Cons.IH by blast
  have "written (sub_run (ev # evs) sub) = written sub @ (ms1 @ ms2)"
    using 1 2 by simp
  moreover have "\<forall>m\<in>set (ms1 @ ms2). is_progress m \<or> is_result m"
    using 1 2 by auto
  ultimately show ?case by blast
qed

lemma unknown_run:
  "\<forall>ev\<in>set evs. \<forall>reg. ev = Tick reg \<longrightarrow> reg (sub_opId sub) = None \<Longrightarrow>
     written (sub_run evs sub) = written sub \<and> ended (sub_run evs sub) = ended sub \<and>
     interval_set (sub_run evs sub) = (interval_set sub \<and> Close \<notin> set evs)"
proof (induction evs arbitrary: sub)
  case Nil
  show ?case by simp
next
  case (Cons ev evs)
  have first: "written (sub_step ev sub) = written sub \<and> ended (sub_step ev sub) = ended sub \<and>
      interval_set (sub_step ev sub) = (interval_set sub \<and> ev \<noteq> Close)"
    using Cons.prems by (cases ev) (simp_all add: sub_step_def tick_unknown)
  have "\<forall>e\<in>set evs. \<forall>reg. e = Tick reg \<longrightarrow> reg (sub_opId (sub_step ev sub)) = None"
    using Cons.prems by (simp add: sub_step_opId)
  from Cons.IH [OF this] first show ?case by auto
qed

text \<open>
  Claim C3, as the code has it. A subscription to an id that the registry does not hold
  at any tick gets the opening ping and nothing else: the callback returns at its guard
  \<^verbatim>\<open>if (!p) return\<close>, so no progress, result or error message is written, and the
  response is never ended by the server, however many ticks pass. The timer is never
  cleared by a tick: it stays set exactly until the caller goes away.
\<close>

theorem unknown_operation_only_ping:
  assumes "\<forall>ev\<in>set evs. \<forall>reg. ev = Tick reg \<longrightarrow> reg opId = None"
  shows "written (sub_run evs (get_stream now opId)) = [Ping now] \<and>
         \<not> ended (sub_run evs (get_stream now opId)) \<and>
         interval_set (sub_run evs (get_stream now opId)) = (Close \<notin> set evs)"
proof -
  have "\<forall>ev\<in>set evs. \<forall>reg. ev = Tick reg \<longrightarrow> reg (sub_opId (get_stream now opId)) = None"
    using assms by (simp add: get_stream_def)
  from unknown_run [OF this] show ?thesis by (simp add: get_stream_def)
qed

theorem unknown_operation_only_ping_witness:
  "sub_run [Tick Map.empty, Tick Map.empty] (get_stream 7 ''fabricated'') =
     \<lparr>sub_opId = ''fabricated'', interval_set = True, ended = False, written = [Ping 7]\<rparr> \<and>
   written (sub_run [Tick Map.empty, Tick Map.empty] (get_stream 7 ''fabricated'')) = [Ping 7] \<and>
   \<not> ended (sub_run [Tick Map.empty, Tick Map.empty] (get_stream 7 ''fabricated'')) \<and>
   interval_set (sub_run [Tick Map.empty, Tick Map.empty] (get_stream 7 ''fabricated'')) \<and>
   written (sub_run [Tick Map.empty, Close, Tick Map.empty] (get_stream 7 ''fabricated'')) =
     [Ping 7] \<and>
   \<not> ended (sub_run [Tick Map.empty, Close, Tick Map.empty] (get_stream 7 ''fabricated'')) \<and>
   \<not> interval_set (sub_run [Tick Map.empty, Close, Tick Map.empty] (get_stream 7 ''fabricated''))"
proof -
  have ticks: "\<forall>ev\<in>set [Tick Map.empty, Tick Map.empty].
      \<forall>reg. ev = Tick reg \<longrightarrow> reg ''fabricated'' = None"
    by simp
  have gone: "\<forall>ev\<in>set [Tick Map.empty, Close, Tick Map.empty].
      \<forall>reg. ev = Tick reg \<longrightarrow> reg ''fabricated'' = None"
    by simp
  have whole: "sub_run [Tick Map.empty, Tick Map.empty] (get_stream 7 ''fabricated'') =
      \<lparr>sub_opId = ''fabricated'', interval_set = True, ended = False, written = [Ping 7]\<rparr>"
    by (simp add: get_stream_def sub_step_def tick_def)
  have "Close \<notin> set [Tick Map.empty, Tick Map.empty]"
    and "\<not> Close \<notin> set [Tick Map.empty, Close, Tick Map.empty]"
    by simp_all
  with unknown_operation_only_ping [OF ticks, of 7] unknown_operation_only_ping [OF gone, of 7]
    whole
  show ?thesis by (simp del: sub_run.simps)
qed

text \<open>
  Claim C3 as the specification states it fails: after three ticks against an empty
  registry the subscription for a fabricated id has written the ping only, its timer is
  still set and the response has not been ended.
\<close>

theorem unknown_operation_hangs:
  "sub_run [Tick Map.empty, Tick Map.empty, Tick Map.empty] (get_stream 0 ''fabricated'') =
     \<lparr>sub_opId = ''fabricated'', interval_set = True, ended = False, written = [Ping 0]\<rparr>"
  by (simp add: get_stream_def sub_step_def tick_def)

text \<open>
  Claim C4. Take a subscription at any moment of its life (after any ticks and a
  possible disconnect). If its timer is still set and a tick finds the entry done, the
  tick writes the progress message, then one result message with the result of the entry,
  clears the timer and ends the response. Once the response is ended, the last message
  written is the only result message, and nothing that happens later changes the
  subscription: no further message is written. While the response is not ended no result
  message has been written, so the server ends the response in no other way.
\<close>

theorem stream_terminal_message_once:
  "(\<forall>reg p. interval_set (sub_run evs (get_stream now opId)) \<and> reg opId = Some p \<and> is_done p \<longrightarrow>
      sub_step (Tick reg) (sub_run evs (get_stream now opId)) =
        (sub_run evs (get_stream now opId))
          \<lparr>written := written (sub_run evs (get_stream now opId)) @
                        [Progress (events p) True, Result (result p)],
           interval_set := False, ended := True\<rparr>) \<and>
   (ended (sub_run evs (get_stream now opId)) \<longrightarrow>
      is_result (last (written (sub_run evs (get_stream now opId)))) \<and>
      filter is_result (butlast (written (sub_run evs (get_stream now opId)))) = [] \<and>
      (\<forall>evs'. sub_run evs' (sub_run evs (get_stream now opId)) =
                sub_run evs (get_stream now opId))) \<and>
   (\<not> ended (sub_run evs (get_stream now opId)) \<longrightarrow>
      filter is_result (written (sub_run evs (get_stream now opId))) = [])"
proof -
  let ?s = "sub_run evs (get_stream now opId)"
  have opId: "sub_opId ?s = opId"
    by (simp add: sub_run_opId get_stream_def)
  have inv: "terminal_once ?s"
    by (rule sub_run_terminal_once [OF get_stream_terminal_once])
  have on_done: "\<forall>reg p. interval_set ?s \<and> reg opId = Some p \<and> is_done p \<longrightarrow>
      sub_step (Tick reg) ?s =
        ?s\<lparr>written := written ?s @ [Progress (events p) True, Result (result p)],
           interval_set := False, ended := True\<rparr>"
    using opId by (simp add: sub_step_def tick_done)
  have after_end: "ended ?s \<longrightarrow>
      is_result (last (written ?s)) \<and> filter is_result (butlast (written ?s)) = [] \<and>
      (\<forall>evs'. sub_run evs' ?s = ?s)"
    using inv by (auto simp add: terminal_once_def sub_run_stopped split: if_splits)
  have before_end: "\<not> ended ?s \<longrightarrow> filter is_result (written ?s) = []"
    using inv by (simp add: terminal_once_def)
  from on_done after_end before_end show ?thesis by blast
qed

theorem stream_terminal_message_once_witness:
  "interval_set
     (sub_run [Tick [''op1'' \<mapsto> \<lparr>is_done = False, events = [''received''], result = None\<rparr>]]
        (get_stream 0 ''op1'')) \<and>
   sub_step
     (Tick [''op1'' \<mapsto> \<lparr>is_done = True, events = [''received''],
                         result = Some (JObj [(''error'', JStr ''unknown'')])\<rparr>])
     (sub_run [Tick [''op1'' \<mapsto> \<lparr>is_done = False, events = [''received''], result = None\<rparr>]]
        (get_stream 0 ''op1'')) =
     \<lparr>sub_opId = ''op1'', interval_set = False, ended = True,
      written = [Ping 0, Progress [''received''] False, Progress [''received''] True,
                 Result (Some (JObj [(''error'', JStr ''unknown'')]))]\<rparr> \<and>
   ended
     (sub_run [Tick [''op1'' \<mapsto> \<lparr>is_done = True, events = [''received''],
                                  result = Some (JObj [(''error'', JStr ''unknown'')])\<rparr>]]
        (get_stream 0 ''op1'')) \<and>
   sub_run [Tick [''op1'' \<mapsto> \<lparr>is_done = True, events = [''received''],
                                result = Some (JObj [(''error'', JStr ''unknown'')])\<rparr>], Close]
     (sub_run [Tick [''op1'' \<mapsto> \<lparr>is_done = True, events = [''received''],
                                  result = Some (JObj [(''error'', JStr ''unknown'')])\<rparr>]]
        (get_stream 0 ''op1'')) =
     \<lparr>sub_opId = ''op1'', interval_set = False, ended = True,
      written = [Ping 0, Progress [''received''] True,
                 Result (Some (JObj [(''error'', JStr ''unknown'')]))]\<rparr>"
proof -
  let ?pending = "[''op1'' \<mapsto> \<lparr>is_done = False, events = [''received''], result = None\<rparr>]"
  let ?finished = "[''op1'' \<mapsto> \<lparr>is_done = True, events = [''received''],
                                 result = Some (JObj [(''error'', JStr ''unknown'')])\<rparr>]"
  have running: "interval_set (sub_run [Tick ?pending] (get_stream 0 ''op1''))"
    by (simp add: get_stream_def sub_step_def tick_def)
  have value1: "sub_run [Tick ?pending] (get_stream 0 ''op1'') =
      \<lparr>sub_opId = ''op1'', interval_set = True, ended = False,
       written = [Ping 0, Progress [''received''] False]\<rparr>"
    by (simp add: get_stream_def sub_step_def tick_def)
  have value2: "sub_run [Tick ?finished] (get_stream 0 ''op1'') =
      \<lparr>sub_opId = ''op1'', interval_set = False, ended = True,
       written = [Ping 0, Progress [''received''] True,
                  Result (Some (JObj [(''error'', JStr ''unknown'')]))]\<rparr>"
    by (simp add: get_stream_def sub_step_def tick_def)
  have over: "ended (sub_run [Tick ?finished] (get_stream 0 ''op1''))"
    unfolding value2 by simp
  from stream_terminal_message_once [of "[Tick ?pending]" 0 "''op1''", THEN conjunct1,
      rule_format, of ?finished
        "\<lparr>is_done = True, events = [''received''],
          result = Some (JObj [(''error'', JStr ''unknown'')])\<rparr>"] running
  have "sub_step (Tick ?finished) (sub_run [Tick ?pending] (get_stream 0 ''op1'')) =
      (sub_run [Tick ?pending] (get_stream 0 ''op1''))
        \<lparr>written := written (sub_run [Tick ?pending] (get_stream 0 ''op1'')) @
           [Progress [''received''] True, Result (Some (JObj [(''error'', JStr ''unknown'')]))],
         interval_set := False, ended := True\<rparr>"
    by (simp del: sub_run.simps)
  moreover from stream_terminal_message_once [of "[Tick ?finished]" 0 "''op1''"] over
  have "sub_run [Tick ?finished, Close] (sub_run [Tick ?finished] (get_stream 0 ''op1'')) =
      sub_run [Tick ?finished] (get_stream 0 ''op1'')"
    by blast
  ultimately show ?thesis using running over unfolding value1 value2 by simp
qed

text \<open>
  Claim C9, as the code has it. The first message on the channel is a ping carrying the
  time the handler ran; every message after it is a progress message (a list of event
  labels and the done flag) or a result message.
\<close>

theorem stream_messages_after_ping:
  "\<exists>ms. written (sub_run evs (get_stream now opId)) = Ping now # ms \<and>
        (\<forall>m\<in>set ms. is_progress m \<or> is_result m)"
  using sub_run_written [of evs "get_stream now opId"] by (simp add: get_stream_def)

theorem stream_messages_after_ping_witness:
  "written
     (sub_run [Tick [''op1'' \<mapsto> \<lparr>is_done = False, events = [''received''], result = None\<rparr>]]
        (get_stream 3 ''op1'')) =
     [Ping 3, Progress [''received''] False] \<and>
   is_progress (Progress [''received''] False)"
proof -
  let ?pending = "[''op1'' \<mapsto> \<lparr>is_done = False, events = [''received''], result = None\<rparr>]"
  have value1: "written (sub_run [Tick ?pending] (get_stream 3 ''op1'')) =
      [Ping 3, Progress [''received''] False]"
    by (simp add: get_stream_def sub_step_def tick_def)
  from stream_messages_after_ping [of "[Tick ?pending]" 3 "''op1''"]
  have "is_progress (Progress [''received''] False) \<or> is_result (Progress [''received''] False)"
    unfolding value1 by simp
  then show ?thesis unfolding value1 by (simp add: is_result_def)
qed

text \<open>
  Claim C9 as the specification states it fails: the message the handler writes when
  the channel opens is neither a progress message nor a result message.
\<close>

theorem stream_opens_with_ping:
  "written (get_stream 0 ''op1'') = [Ping 0] \<and>
   \<not> is_progress (Ping 0) \<and> \<not> is_result (Ping 0)"
  by (simp add: get_stream_def is_progress_def is_result_def)

section \<open>The scenario\<close>

lemma scenario_submitted:
  "email_ok env ''a@b.com'' \<Longrightarrow>
     snd (post_invoices env (scenario_body 100) init) =
       \<lparr>progress = [nanoid_at env 0 \<mapsto> \<lparr>is_done = False, events = [''received''], result = None\<rparr>],
        tasks = [\<lparr>t_opId = nanoid_at env 0,
                  t_data = \<lparr>amount = 100, currency = ''USD'', customer_email = ''a@b.com''\<rparr>,
                  t_stage = AwaitClient\<rparr>],
        nanoid_calls = 1\<rparr>"
  by (simp add: post_invoices_def scenario_body_parses init_def Let_def)

lemma deliver_client:
  "deliver env 0
     (\<lparr>progress = [i \<mapsto> \<lparr>is_done = False, events = [''received''], result = None\<rparr>],
       tasks = [\<lparr>t_opId = i, t_data = d, t_stage = AwaitClient\<rparr>],
       nanoid_calls = k\<rparr>, invoices) =
   Inr (\<lparr>progress = [i \<mapsto> \<lparr>is_done = False, events = [''received'', ''connecting-mcp''],
                          result = None\<rparr>],
         tasks = [\<lparr>t_opId = i, t_data = d, t_stage = AwaitCreate (create_request d i)\<rparr>],
         nanoid_calls = k\<rparr>, invoices)"
  by (simp add: deliver_def step_def resume_task_def try_block_def after_getBillingClient_def
      push_event_def)

lemma tools_call_create:
  "email_ok env ''a@b.com'' \<Longrightarrow>
     tools_call env
       (create_request \<lparr>amount = 100, currency = ''USD'', customer_email = ''a@b.com''\<rparr> i)
       Map.empty =
     (ToolResult (text_result (JObj [(''invoice_id'', JStr i), (''reused'', JBool False)])),
      [i \<mapsto> \<lparr>amount = 100, currency = ''USD'', customer_email = ''a@b.com'',
              status = ''draft''\<rparr>])"
  by (simp add: tools_call_def create_request_def z_number_nonnegative_def z_string_length_def
      z_string_email_def z_string_def create_invoice_def)

lemma deliver_create:
  "email_ok env ''a@b.com'' \<Longrightarrow>
   d = \<lparr>amount = 100, currency = ''USD'', customer_email = ''a@b.com''\<rparr> \<Longrightarrow>
   deliver env 0
     (\<lparr>progress = [i \<mapsto> \<lparr>is_done = False, events = [''received'', ''connecting-mcp''],
                      result = None\<rparr>],
       tasks = [\<lparr>t_opId = i, t_data = d, t_stage = AwaitCreate (create_request d i)\<rparr>],
       nanoid_calls = k\<rparr>, Map.empty) =
   Inr (\<lparr>progress = [i \<mapsto> \<lparr>is_done = False,
                          events = [''received'', ''connecting-mcp'', ''invoice-created''],
                          result = None\<rparr>],
         tasks = [\<lparr>t_opId = i, t_data = d, t_stage = AwaitGet (get_request (Some (JStr i)))\<rparr>],
         nanoid_calls = k\<rparr>,
        [i \<mapsto> \<lparr>amount = 100, currency = ''USD'', customer_email = ''a@b.com'',
                status = ''draft''\<rparr>])"
  by (simp add: deliver_def tools_call_create step_def resume_task_def try_block_def
      after_create_def push_event_def text_result_def JSON_stringify_def JSON_parse_def
      text_of_def get_property_def)

lemma tools_call_get:
  "tools_call env (get_request (Some (JStr i)))
     [i \<mapsto> \<lparr>amount = a, currency = c, customer_email = e, status = s\<rparr>] =
     (ToolResult (text_result (JObj [(''invoice'',
        JObj [(''id'', JStr i), (''amount'', JNum a), (''currency'', JStr c),
              (''customer_email'', JStr e), (''status'', JStr s)])])),
      [i \<mapsto> \<lparr>amount = a, currency = c, customer_email = e, status = s\<rparr>])"
  by (simp add: tools_call_def get_request_def z_string_def get_invoice_def)

lemma deliver_get:
  "deliver env 0
     (\<lparr>progress = [i \<mapsto> \<lparr>is_done = False,
                        events = [''received'', ''connecting-mcp'', ''invoice-created''],
                        result = None\<rparr>],
       tasks = [\<lparr>t_opId = i, t_data = d, t_stage = AwaitGet (get_request (Some (JStr i)))\<rparr>],
       nanoid_calls = k\<rparr>,
      [i \<mapsto> \<lparr>amount = a, currency = c, customer_email = e, status = s\<rparr>]) =
   Inr (\<lparr>progress = [i \<mapsto> \<lparr>is_done = True,
             events = [''received'', ''connecting-mcp'', ''invoice-created'', ''invoice-fetched''],
             result = Some (JObj [(''invoice'',
               JObj [(''id'', JStr i), (''amount'', JNum a), (''currency'', JStr c),
                     (''customer_email'', JStr e), (''status'', JStr s)])])\<rparr>],
         tasks = [\<lparr>t_opId = i, t_data = d, t_stage = Finished\<rparr>],
         nanoid_calls = k\<rparr>,
        [i \<mapsto> \<lparr>amount = a, currency = c, customer_email = e, status = s\<rparr>])"
  by (simp add: deliver_def tools_call_get step_def resume_task_def try_block_def after_get_def
      push_event_def text_result_def JSON_stringify_def JSON_parse_def text_of_def)

lemma deliver_finished:
  "deliver env 0
     (\<lparr>progress = reg, tasks = [\<lparr>t_opId = i, t_data = d, t_stage = Finished\<rparr>],
       nanoid_calls = n\<rparr>, invoices) =
   Inr (\<lparr>progress = reg, tasks = [\<lparr>t_opId = i, t_data = d, t_stage = Finished\<rparr>],
         nanoid_calls = n\<rparr>, invoices)"
  by (simp add: deliver_def)

lemma deliver_times_fixed: "deliver env i sys = Inr sys \<Longrightarrow> deliver_times env i n sys = Inr sys"
  by (induction n) simp_all

lemma scenario_system_0:
  assumes "email_ok env ''a@b.com''"
  shows "scenario_system env 0 =
    Inr (\<lparr>progress = [nanoid_at env 0 \<mapsto> \<lparr>is_done = False, events = [''received''], result = None\<rparr>],
        tasks = [\<lparr>t_opId = nanoid_at env 0,
                  t_data = \<lparr>amount = 100, currency = ''USD'', customer_email = ''a@b.com''\<rparr>,
                  t_stage = AwaitClient\<rparr>],
        nanoid_calls = 1\<rparr>, Map.empty)"
  by (simp add: scenario_system_def scenario_submitted [OF assms])

lemma scenario_system_1:
  assumes "email_ok env ''a@b.com''"
  shows "scenario_system env (Suc 0) =
    Inr (\<lparr>progress = [nanoid_at env 0 \<mapsto> \<lparr>is_done = False, events = [''received'', ''connecting-mcp''], result = None\<rparr>],
        tasks = [\<lparr>t_opId = nanoid_at env 0,
                  t_data = \<lparr>amount = 100, currency = ''USD'', customer_email = ''a@b.com''\<rparr>,
                  t_stage = AwaitCreate (create_request \<lparr>amount = 100, currency = ''USD'', customer_email = ''a@b.com''\<rparr> (nanoid_at env 0))\<rparr>],
        nanoid_calls = 1\<rparr>, Map.empty)"
  by (simp add: scenario_system_def scenario_submitted [OF assms] deliver_client)

lemma scenario_system_2:
  assumes "email_ok env ''a@b.com''"
  shows "scenario_system env (Suc (Suc 0)) =
    Inr (\<lparr>progress = [nanoid_at env 0 \<mapsto> \<lparr>is_done = False, events = [''received'', ''connecting-mcp'', ''invoice-created''], result = None\<rparr>],
        tasks = [\<lparr>t_opId = nanoid_at env 0,
                  t_data = \<lparr>amount = 100, currency = ''USD'', customer_email = ''a@b.com''\<rparr>,
                  t_stage = AwaitGet (get_request (Some (JStr (nanoid_at env 0))))\<rparr>],
        nanoid_calls = 1\<rparr>, 
        [nanoid_at env 0 \<mapsto> \<lparr>amount = 100, currency = ''USD'', customer_email = ''a@b.com'', status = ''draft''\<rparr>])"
  by (simp add: scenario_system_def scenario_submitted [OF assms] deliver_client deliver_create [OF assms])

lemma scenario_system_3:
  assumes "email_ok env ''a@b.com''"
  shows "scenario_system env (Suc (Suc (Suc n))) =
    Inr (\<lparr>progress = [nanoid_at env 0 \<mapsto> \<lparr>is_done = True, events = [''received'', ''connecting-mcp'', ''invoice-created'', ''invoice-fetched''], 
          result = Some (JObj [(''invoice'',
               JObj [(''id'', JStr (nanoid_at env 0)), (''amount'', JNum 100), (''currency'', JStr ''USD''),
                     (''customer_email'', JStr ''a@b.com''), (''status'', JStr ''draft'')])])\<rparr>],
        tasks = [\<lparr>t_opId = nanoid_at env 0,
                  t_data = \<lparr>amount = 100, currency = ''USD'', customer_email = ''a@b.com''\<rparr>,
                  t_stage = Finished\<rparr>],
        nanoid_calls = 1\<rparr>, 
        [nanoid_at env 0 \<mapsto> \<lparr>amount = 100, currency = ''USD'', customer_email = ''a@b.com'', status = ''draft''\<rparr>])"
  by (simp add: scenario_system_def scenario_submitted [OF assms] deliver_client deliver_create [OF assms] deliver_get
       deliver_times_fixed [OF deliver_finished])


lemma scenario_entry:
  assumes "email_ok env ''a@b.com''"
  shows "registry_of (scenario_system env n) (nanoid_at env 0) =
     Some \<lparr>is_done = (3 \<le> n),
           events = take (Suc n)
             [''received'', ''connecting-mcp'', ''invoice-created'', ''invoice-fetched''],
           result = (if 3 \<le> n
             then Some (JObj [(''invoice'',
               JObj [(''id'', JStr (nanoid_at env 0)), (''amount'', JNum 100),
                     (''currency'', JStr ''USD''), (''customer_email'', JStr ''a@b.com''),
                     (''status'', JStr ''draft'')])])
             else None)\<rparr>"
proof -
  consider "n = 0" | "n = Suc 0" | "n = Suc (Suc 0)" | k where "n = Suc (Suc (Suc k))"
    by (metis not0_implies_Suc)
  then show ?thesis
  proof cases
    case 1
    then show ?thesis by (simp add: registry_of_def scenario_system_0 [OF assms])
  next
    case 2
    then show ?thesis by (simp add: registry_of_def scenario_system_1 [OF assms])
  next
    case 3
    then show ?thesis by (simp add: registry_of_def scenario_system_2 [OF assms])
  next
    case 4
    then show ?thesis by (simp add: registry_of_def scenario_system_3 [OF assms])
  qed
qed

lemma scenario_store:
  assumes "email_ok env ''a@b.com''" and "2 \<le> n"
  shows "store_of (scenario_system env n) (nanoid_at env 0) =
     Some \<lparr>amount = 100, currency = ''USD'', customer_email = ''a@b.com'', status = ''draft''\<rparr>"
proof -
  consider "n = Suc (Suc 0)" | k where "n = Suc (Suc (Suc k))"
    using assms(2) by (metis One_nat_def Suc_1 Suc_le_D Suc_le_mono not0_implies_Suc not_less_eq_eq)
  then show ?thesis
  proof cases
    case 1
    then show ?thesis by (simp add: store_of_def scenario_system_2 [OF assms(1)])
  next
    case 2
    then show ?thesis by (simp add: store_of_def scenario_system_3 [OF assms(1)])
  qed
qed

text \<open>
  Claim C5, as the code has it. In the scenario the id returned is \<^verbatim>\<open>op1\<close>. After \<open>n\<close>
  settlements the event log is the first \<open>n + 1\<close> of the labels \<^verbatim>\<open>received\<close>,
  \<^verbatim>\<open>connecting-mcp\<close>, \<^verbatim>\<open>invoice-created\<close>, \<^verbatim>\<open>invoice-fetched\<close>, so it always starts
  with \<^verbatim>\<open>received\<close>; the entry is done from the third settlement on, with the fetched
  invoice as its result. A first tick of a new subscription writes the log of that
  moment as its progress message, and from the third settlement on also the result
  message, whose invoice id \<^verbatim>\<open>op1\<close> is the key under which the tool server stored the
  invoice.
\<close>

theorem scenario_event_log:
  assumes "email_ok env ''a@b.com''" and "nanoid_at env 0 = ''op1''"
  shows "fst (post_invoices env (scenario_body 100) init) = Status202 ''op1'' \<and>
    (\<forall>n. registry_of (scenario_system env n) ''op1'' =
       Some \<lparr>is_done = (3 \<le> n),
             events = take (Suc n)
               [''received'', ''connecting-mcp'', ''invoice-created'', ''invoice-fetched''],
             result = (if 3 \<le> n
               then Some (JObj [(''invoice'',
                 JObj [(''id'', JStr ''op1''), (''amount'', JNum 100),
                       (''currency'', JStr ''USD''), (''customer_email'', JStr ''a@b.com''),
                       (''status'', JStr ''draft'')])])
               else None)\<rparr>) \<and>
    (\<forall>n now. written (tick (registry_of (scenario_system env n)) (get_stream now ''op1'')) =
       Ping now #
       Progress (take (Suc n)
           [''received'', ''connecting-mcp'', ''invoice-created'', ''invoice-fetched''])
         (3 \<le> n) #
       (if 3 \<le> n
        then [Result (Some (JObj [(''invoice'',
               JObj [(''id'', JStr ''op1''), (''amount'', JNum 100),
                     (''currency'', JStr ''USD''), (''customer_email'', JStr ''a@b.com''),
                     (''status'', JStr ''draft'')])]))]
        else [])) \<and>
    (\<forall>n. 2 \<le> n \<longrightarrow> store_of (scenario_system env n) ''op1'' =
       Some \<lparr>amount = 100, currency = ''USD'', customer_email = ''a@b.com'',
             status = ''draft''\<rparr>)"
proof -
  have parsed: "CreateInvoiceInput_safeParse env (scenario_body 100) =
      Inr \<lparr>amount = 100, currency = ''USD'', customer_email = ''a@b.com''\<rparr>"
    by (simp add: scenario_body_parses [OF assms(1)])
  have answer: "fst (post_invoices env (scenario_body 100) init) = Status202 ''op1''"
    using assms(2) by (simp add: post_invoices_def parsed Let_def init_def)
  note entry = scenario_entry [OF assms(1), unfolded assms(2)]
  have feed: "written (tick (registry_of (scenario_system env n)) (get_stream now ''op1'')) =
       Ping now #
       Progress (take (Suc n)
           [''received'', ''connecting-mcp'', ''invoice-created'', ''invoice-fetched''])
         (3 \<le> n) #
       (if 3 \<le> n
        then [Result (Some (JObj [(''invoice'',
               JObj [(''id'', JStr ''op1''), (''amount'', JNum 100),
                     (''currency'', JStr ''USD''), (''customer_email'', JStr ''a@b.com''),
                     (''status'', JStr ''draft'')])]))]
        else [])" for n now
    by (simp add: tick_def get_stream_def entry Let_def)
  note store = scenario_store [OF assms(1), unfolded assms(2)]
  from answer entry feed store show ?thesis by blast
qed

theorem scenario_event_log_witness:
  "email_ok scenario_env ''a@b.com'' \<and> nanoid_at scenario_env 0 = ''op1'' \<and>
   fst (post_invoices scenario_env (scenario_body 100) init) = Status202 ''op1'' \<and>
   registry_of (scenario_system scenario_env 1) ''op1'' =
     Some \<lparr>is_done = False, events = [''received'', ''connecting-mcp''], result = None\<rparr> \<and>
   written (tick (registry_of (scenario_system scenario_env 0)) (get_stream 5 ''op1'')) =
     [Ping 5, Progress [''received''] False] \<and>
   store_of (scenario_system scenario_env 2) ''op1'' =
     Some \<lparr>amount = 100, currency = ''USD'', customer_email = ''a@b.com'', status = ''draft''\<rparr>"
  using scenario_event_log [OF scenario_env_email scenario_env_first_id]
  by (simp add: scenario_env_email scenario_env_first_id)

text \<open>
  Claim C5 as the specification states it fails: when the operation of the scenario is
  done, its event log is the four labels above, and the label \<^verbatim>\<open>calling:create\<close> is not
  among them.
\<close>

theorem scenario_log_has_other_labels:
  "(case registry_of (scenario_system scenario_env 3) ''op1'' of
      None \<Rightarrow> False
    | Some p \<Rightarrow>
        is_done p \<and>
        events p = [''received'', ''connecting-mcp'', ''invoice-created'', ''invoice-fetched''] \<and>
        ''calling:create'' \<notin> set (events p))"
  by (simp add: scenario_entry [OF scenario_env_email, unfolded scenario_env_first_id])


section \<open>The background routine: what one resumption does\<close>

lemma push_event_known:
  "reg i = Some p \<Longrightarrow> push_event i l reg = Inr (reg(i \<mapsto> p\<lparr>events := events p @ [l]\<rparr>))"
  by (simp add: push_event_def)

lemma truthy_message_or_unknown: "truthy (message_or_unknown e)"
  by (simp add: message_or_unknown_def truthy_def split: json.splits option.splits)

lemma after_getBillingClient_effect:
  assumes "reg i = Some p"
  shows "after_getBillingClient i d reg =
           (Inr (AwaitCreate (create_request d i)),
            reg(i \<mapsto> p\<lparr>events := events p @ [''connecting-mcp'']\<rparr>))"
  using assms by (simp add: after_getBillingClient_def push_event_known)

lemma after_create_effect:
  assumes "reg i = Some p"
  shows "\<exists>out. after_create i r reg =
           (out, reg(i \<mapsto> p\<lparr>events := events p @ [''invoice-created'']\<rparr>)) \<and>
         out \<noteq> Inr Finished"
  using assms
  by (simp add: after_create_def push_event_known
      split: option.splits list.splits sum.splits)

lemma after_get_effect:
  assumes "reg i = Some p"
  shows "(\<exists>e. after_get i r reg =
            (Inl e, reg(i \<mapsto> p\<lparr>events := events p @ [''invoice-fetched'']\<rparr>))) \<or>
         (\<exists>v. after_get i r reg =
            (Inr Finished,
             reg(i \<mapsto> \<lparr>is_done = True, events = events p @ [''invoice-fetched''],
                        result = Some v\<rparr>)))"
  using assms
  by (auto simp add: after_get_def push_event_known
      split: option.splits list.splits sum.splits)

lemma try_block_effect:
  assumes "reg (t_opId t) = Some p" and "try_block t s reg = Some (out, reg')"
  shows "t_stage t \<noteq> Finished \<and>
         (\<exists>p'. reg' = reg(t_opId t \<mapsto> p') \<and>
            (if out = Inr Finished then is_done p' \<and> result p' \<noteq> None
             else is_done p' = is_done p \<and> result p' = result p \<and>
                  (\<exists>es. events p' = events p @ es)))"
proof -
  have same: "reg = reg(t_opId t \<mapsto> p)"
    using assms(1) by (simp add: fun_upd_idem)
  show ?thesis
  proof (cases "t_stage t")
    case Finished
    with assms(2) show ?thesis by (simp add: try_block_def)
  next
    case AwaitClient
    show ?thesis
    proof (cases s)
      case ClientConnected
      with AwaitClient assms show ?thesis
        by (auto simp add: try_block_def after_getBillingClient_effect)
    next
      case (ToolResult r)
      with AwaitClient assms show ?thesis by (simp add: try_block_def)
    next
      case (Rejected e)
      with AwaitClient assms same show ?thesis
        by (auto simp add: try_block_def intro!: exI [of _ p])
    qed
  next
    case (AwaitCreate req)
    show ?thesis
    proof (cases s)
      case ClientConnected
      with AwaitCreate assms show ?thesis by (simp add: try_block_def)
    next
      case (ToolResult r)
      from after_create_effect [where reg = reg and i = "t_opId t" and p = p and r = r,
          OF assms(1)]
      obtain out' where
        "after_create (t_opId t) r reg =
           (out', reg(t_opId t \<mapsto> p\<lparr>events := events p @ [''invoice-created'']\<rparr>))"
        "out' \<noteq> Inr Finished" by blast
      with ToolResult AwaitCreate assms show ?thesis
        by (auto simp add: try_block_def)
    next
      case (Rejected e)
      with AwaitCreate assms same show ?thesis
        by (auto simp add: try_block_def intro!: exI [of _ p])
    qed
  next
    case (AwaitGet req)
    show ?thesis
    proof (cases s)
      case ClientConnected
      with AwaitGet assms show ?thesis by (simp add: try_block_def)
    next
      case (ToolResult r)
      from after_get_effect [where reg = reg and i = "t_opId t" and p = p and r = r,
          OF assms(1)] ToolResult AwaitGet assms
      show ?thesis
        by (auto simp add: try_block_def)
    next
      case (Rejected e)
      with AwaitGet assms same show ?thesis
        by (auto simp add: try_block_def intro!: exI [of _ p])
    qed
  qed
qed

lemma try_block_Rejected:
  "t_stage t \<noteq> Finished \<Longrightarrow> try_block t (Rejected e) reg = Some (Inl e, reg)"
  by (cases "t_stage t") (simp_all add: try_block_def)

lemma resume_task_caught:
  assumes "reg (t_opId t) = Some p" and "try_block t s reg = Some (Inl e, reg')"
  shows "\<exists>es. resume_task t s reg =
           Inr (t\<lparr>t_stage := Finished\<rparr>,
                reg(t_opId t \<mapsto>
                  \<lparr>is_done = True, events = events p @ es,
                   result = Some (JObj [(''error'', message_or_unknown e)])\<rparr>))"
proof -
  from try_block_effect [OF assms] obtain p' es where
    "reg' = reg(t_opId t \<mapsto> p')" "events p' = events p @ es"
    by auto
  with assms(2) show ?thesis
    by (auto simp add: resume_task_def catch_block_def)
qed

lemma resume_task_effect:
  assumes "reg (t_opId t) = Some p"
  shows "\<exists>t' p'. resume_task t s reg = Inr (t', reg(t_opId t \<mapsto> p')) \<and>
           t_opId t' = t_opId t \<and>
           (t_stage t = Finished \<longrightarrow> t' = t \<and> p' = p) \<and>
           (is_done p = (t_stage t = Finished) \<and> is_done p = (result p \<noteq> None) \<longrightarrow>
              is_done p' = (t_stage t' = Finished) \<and> is_done p' = (result p' \<noteq> None))"
proof (cases "try_block t s reg")
  case None
  have "reg = reg(t_opId t \<mapsto> p)"
    using assms by (simp add: fun_upd_idem)
  with None show ?thesis
    by (auto simp add: resume_task_def intro!: exI [of _ p])
next
  case (Some a)
  obtain out reg' where a: "a = (out, reg')" by (cases a)
  from try_block_effect [OF assms Some [unfolded a]] obtain p' where
    eff: "t_stage t \<noteq> Finished" "reg' = reg(t_opId t \<mapsto> p')"
      "if out = Inr Finished then is_done p' \<and> result p' \<noteq> None
       else is_done p' = is_done p \<and> result p' = result p"
    by auto
  show ?thesis
  proof (cases out)
    case (Inr stage')
    with Some a eff show ?thesis
      by (auto simp add: resume_task_def split: if_splits)
  next
    case (Inl e)
    from resume_task_caught [OF assms Some [unfolded a Inl]] obtain es where
      r: "resume_task t s reg =
            Inr (t\<lparr>t_stage := Finished\<rparr>,
                 reg(t_opId t \<mapsto>
                   \<lparr>is_done = True, events = events p @ es,
                    result = Some (JObj [(''error'', message_or_unknown e)])\<rparr>))"
      by blast
    show ?thesis
      by (rule exI [of _ "t\<lparr>t_stage := Finished\<rparr>"],
          rule exI [of _ "\<lparr>is_done = True, events = events p @ es,
                           result = Some (JObj [(''error'', message_or_unknown e)])\<rparr>"])
         (simp add: r eff(1))
  qed
qed

lemma step_registered:
  assumes "tasks_registered st"
  shows "\<exists>st'. step env ev st = Inr st' \<and> tasks_registered st'"
proof (cases ev)
  case (Submit body)
  from assms show ?thesis
    by (auto simp add: Submit step_def post_invoices_def Let_def tasks_registered_def
        list_all_iff split: sum.splits)
next
  case (Settle i s)
  show ?thesis
  proof (cases "i < length (tasks st)")
    case False
    with assms Settle show ?thesis by (simp add: step_def)
  next
    case True
    with assms obtain p where p: "progress st (t_opId (tasks st ! i)) = Some p"
      by (auto simp add: tasks_registered_def list_all_length)
    from resume_task_effect [where reg = "progress st" and t = "tasks st ! i" and s = s, OF p]
    obtain t' p' where
      r: "resume_task (tasks st ! i) s (progress st) =
            Inr (t', (progress st)(t_opId (tasks st ! i) \<mapsto> p'))"
         "t_opId t' = t_opId (tasks st ! i)"
      by blast
    have "tasks_registered
        (st\<lparr>progress := (progress st)(t_opId (tasks st ! i) \<mapsto> p'),
            tasks := (tasks st)[i := t']\<rparr>)"
      using assms r(2) True
      by (auto simp add: tasks_registered_def list_all_length nth_list_update)
    with Settle True r(1) show ?thesis by (simp add: step_def)
  qed
qed

lemma run_registered:
  "tasks_registered st \<Longrightarrow> \<exists>st'. run env evs st = Inr st' \<and> tasks_registered st'"
proof (induction evs arbitrary: st)
  case Nil
  then show ?case by simp
next
  case (Cons ev evs)
  from step_registered [OF Cons.prems, of env ev] obtain st1 where
    "step env ev st = Inr st1" "tasks_registered st1" by blast
  with Cons.IH [of st1] show ?case by simp
qed

lemma init_registered: "tasks_registered init"
  by (simp add: tasks_registered_def init_def)

section \<open>The life of a registry entry\<close>

lemma consistent_ids:
  assumes "consistent env st"
  shows "length (tasks st) = nanoid_calls st"
    and "i < length (tasks st) \<Longrightarrow> t_opId (tasks st ! i) = nanoid_at env i"
proof -
  from assms have ids: "map t_opId (tasks st) = map (nanoid_at env) [0..<nanoid_calls st]"
    by (simp add: consistent_def)
  then have "length (map t_opId (tasks st)) = length (map (nanoid_at env) [0..<nanoid_calls st])"
    by simp
  then show len: "length (tasks st) = nanoid_calls st" by simp
  assume i: "i < length (tasks st)"
  then have "t_opId (tasks st ! i) = map t_opId (tasks st) ! i" by simp
  also have "\<dots> = map (nanoid_at env) [0..<nanoid_calls st] ! i" by (simp only: ids)
  also have "\<dots> = nanoid_at env i" using i len by simp
  finally show "t_opId (tasks st ! i) = nanoid_at env i" .
qed

lemma consistent_known:
  assumes "consistent env st" and "progress st x = Some q"
  shows "\<exists>j<nanoid_calls st. x = nanoid_at env j"
proof -
  from assms have "x \<in> nanoid_at env ` {..<nanoid_calls st}"
    by (auto simp add: consistent_def)
  then show ?thesis by auto
qed

lemma submit_consistent:
  assumes inj: "inj (nanoid_at env)" and c: "consistent env st"
  shows "consistent env (snd (post_invoices env body st)) \<and>
         (\<forall>x q. progress st x = Some q \<longrightarrow> progress (snd (post_invoices env body st)) x = Some q)"
proof (cases "CreateInvoiceInput_safeParse env body")
  case (Inl err)
  with c show ?thesis by (simp add: post_invoices_def)
next
  case (Inr d)
  let ?n = "nanoid_calls st"
  let ?id = "nanoid_at env ?n"
  let ?reg = "(progress st)(?id \<mapsto> \<lparr>is_done = False, events = [''received''], result = None\<rparr>)"
  let ?new = "\<lparr>t_opId = ?id, t_data = d, t_stage = AwaitClient\<rparr>"
  have st': "snd (post_invoices env body st) =
      st\<lparr>progress := ?reg, tasks := tasks st @ [?new], nanoid_calls := Suc ?n\<rparr>"
    using Inr by (simp add: post_invoices_def Let_def)
  have fresh: "progress st x = Some q \<Longrightarrow> x \<noteq> ?id" for x q
  proof -
    assume "progress st x = Some q"
    from consistent_known [OF c this] obtain j where "j < ?n" "x = nanoid_at env j" by blast
    with inj show "x \<noteq> ?id" by (auto dest: injD)
  qed
  have old: "entry_matches ?reg t" if "t \<in> set (tasks st)" for t
  proof -
    from c that have m: "entry_matches (progress st) t"
      by (simp add: consistent_def list_all_iff)
    then obtain q where "progress st (t_opId t) = Some q"
      by (auto simp add: entry_matches_def split: option.splits)
    from fresh [OF this] m show ?thesis by (simp add: entry_matches_def)
  qed
  have "consistent env (st\<lparr>progress := ?reg, tasks := tasks st @ [?new], nanoid_calls := Suc ?n\<rparr>)"
    using c old by (auto simp add: consistent_def list_all_iff entry_matches_def lessThan_Suc)
  moreover have "\<forall>x q. progress st x = Some q \<longrightarrow> ?reg x = Some q"
    using fresh by auto
  ultimately show ?thesis by (simp add: st')
qed

lemma settle_consistent:
  assumes inj: "inj (nanoid_at env)" and c: "consistent env st"
  shows "\<exists>st'. step env (Settle i s) st = Inr st' \<and> consistent env st' \<and>
           (\<forall>x q. progress st x = Some q \<longrightarrow>
              (\<exists>q'. progress st' x = Some q' \<and> (is_done q \<longrightarrow> q' = q)))"
proof (cases "i < length (tasks st)")
  case False
  with c show ?thesis by (simp add: step_def)
next
  case True
  let ?t = "tasks st ! i"
  let ?id = "t_opId ?t"
  from c True have m: "entry_matches (progress st) ?t"
    by (simp add: consistent_def list_all_length)
  then obtain p where p: "progress st ?id = Some p"
    and pm: "is_done p = (t_stage ?t = Finished)" "is_done p = (result p \<noteq> None)"
    by (auto simp add: entry_matches_def split: option.splits)
  from resume_task_effect [where reg = "progress st" and t = ?t and s = s, OF p] pm
  obtain t' p' where
    r: "resume_task ?t s (progress st) = Inr (t', (progress st)(?id \<mapsto> p'))"
    and id': "t_opId t' = ?id"
    and fin: "t_stage ?t = Finished \<longrightarrow> t' = ?t \<and> p' = p"
    and m': "is_done p' = (t_stage t' = Finished)" "is_done p' = (result p' \<noteq> None)"
    by blast
  let ?reg = "(progress st)(?id \<mapsto> p')"
  let ?st' = "st\<lparr>progress := ?reg, tasks := (tasks st)[i := t']\<rparr>"
  have step: "step env (Settle i s) st = Inr ?st'"
    using True r by (simp add: step_def)
  have ids: "map t_opId ((tasks st)[i := t']) = map t_opId (tasks st)"
    using True id' by (simp add: map_update list_update_same_conv)
  have dom: "dom ?reg = dom (progress st)"
    using p by auto
  have each: "entry_matches ?reg ((tasks st)[i := t'] ! j)" if j: "j < length (tasks st)" for j
  proof (cases "j = i")
    case True
    with j id' m' show ?thesis by (simp add: entry_matches_def)
  next
    case False
    from consistent_ids(2) [OF c j] consistent_ids(2) [OF c True] inj False
    have "t_opId (tasks st ! j) \<noteq> ?id" by (auto dest: injD)
    moreover from c j have "entry_matches (progress st) (tasks st ! j)"
      by (simp add: consistent_def list_all_length)
    ultimately show ?thesis using False by (simp add: entry_matches_def)
  qed
  have cons: "consistent env ?st'"
    using c ids dom each by (simp add: consistent_def list_all_length)
  have frozen: "\<exists>q'. ?reg x = Some q' \<and> (is_done q \<longrightarrow> q' = q)" if "progress st x = Some q" for x q
  proof (cases "x = ?id")
    case True
    with that p have "q = p" by simp
    with True pm fin show ?thesis by auto
  next
    case False
    with that show ?thesis by simp
  qed
  from step cons frozen show ?thesis by (intro exI [of _ ?st']) simp
qed

lemma step_consistent:
  assumes "inj (nanoid_at env)" and "consistent env st"
  shows "\<exists>st'. step env ev st = Inr st' \<and> consistent env st' \<and>
           (\<forall>x q. progress st x = Some q \<longrightarrow>
              (\<exists>q'. progress st' x = Some q' \<and> (is_done q \<longrightarrow> q' = q)))"
proof (cases ev)
  case (Submit body)
  from submit_consistent [OF assms, of body] show ?thesis
    by (simp add: Submit step_def)
next
  case (Settle i s)
  from settle_consistent [OF assms, of i s] show ?thesis
    by (simp add: Settle)
qed

lemma run_consistent:
  assumes "inj (nanoid_at env)" and "consistent env st"
  shows "\<exists>st'. run env evs st = Inr st' \<and> consistent env st' \<and>
           (\<forall>x q. progress st x = Some q \<longrightarrow>
              (\<exists>q'. progress st' x = Some q' \<and> (is_done q \<longrightarrow> q' = q)))"
  using assms(2)
proof (induction evs arbitrary: st)
  case Nil
  then show ?case by simp
next
  case (Cons ev evs)
  from step_consistent [OF assms(1) Cons.prems, of ev] obtain st1 where
    1: "step env ev st = Inr st1" "consistent env st1"
      "\<forall>x q. progress st x = Some q \<longrightarrow>
         (\<exists>q'. progress st1 x = Some q' \<and> (is_done q \<longrightarrow> q' = q))"
    by blast
  from Cons.IH [OF 1(2)] obtain st2 where
    2: "run env evs st1 = Inr st2" "consistent env st2"
      "\<forall>x q. progress st1 x = Some q \<longrightarrow>
         (\<exists>q'. progress st2 x = Some q' \<and> (is_done q \<longrightarrow> q' = q))"
    by blast
  have "\<exists>q'. progress st2 x = Some q' \<and> (is_done q \<longrightarrow> q' = q)" if "progress st x = Some q" for x q
  proof -
    from 1(3) that obtain q1 where q1: "progress st1 x = Some q1" "is_done q \<longrightarrow> q1 = q" by blast
    from 2(3) q1(1) obtain q2 where "progress st2 x = Some q2" "is_done q1 \<longrightarrow> q2 = q1" by blast
    with q1(2) show ?thesis by auto
  qed
  with 1(1) 2(1) 2(2) show ?case by simp
qed

lemma init_consistent: "consistent env init"
  by (simp add: consistent_def init_def)

lemma consistent_result:
  assumes "consistent env st" and "progress st x = Some q"
  shows "is_done q = (result q \<noteq> None)"
proof -
  from consistent_known [OF assms] obtain j where j: "j < nanoid_calls st" "x = nanoid_at env j"
    by blast
  with consistent_ids [OF assms(1)] have "j < length (tasks st)" "t_opId (tasks st ! j) = x"
    by simp_all
  moreover from this(1) assms(1) have "entry_matches (progress st) (tasks st ! j)"
    by (simp add: consistent_def list_all_length)
  ultimately show ?thesis using assms(2) by (auto simp add: entry_matches_def)
qed

lemma consistent_task_entry:
  assumes "consistent env st" and "i < length (tasks st)"
  shows "\<exists>p. progress st (t_opId (tasks st ! i)) = Some p \<and>
             is_done p = (t_stage (tasks st ! i) = Finished)"
proof -
  from assms have "entry_matches (progress st) (tasks st ! i)"
    by (simp add: consistent_def list_all_length)
  then show ?thesis
    by (auto simp add: entry_matches_def split: option.splits)
qed

text \<open>
  Claim C8, as the code has it. Provided \<^verbatim>\<open>nanoid()\<close> never returns the same id twice:
  every sequence of submissions and settlements runs to a state without an unhandled
  rejection; in every state reached, an entry has a result exactly when it is done, and
  the entry of every routine is done exactly when that routine is over; and an entry that
  is done is found unchanged (done flag, event log and result) in every state reached
  later, so it never goes back to pending and is not touched again. The stream handler
  cannot change the registry: \<open>tick\<close> only reads it.
\<close>

theorem operation_status_monotonic:
  assumes "inj (nanoid_at env)"
  shows "\<exists>s1 s2. run env evs1 init = Inr s1 \<and> run env evs2 s1 = Inr s2 \<and>
           (\<forall>opId p. progress s1 opId = Some p \<longrightarrow>
              is_done p = (result p \<noteq> None) \<and>
              (\<exists>p2. progress s2 opId = Some p2 \<and> (is_done p \<longrightarrow> p2 = p))) \<and>
           (\<forall>i. i < length (tasks s1) \<longrightarrow>
              (\<exists>p. progress s1 (t_opId (tasks s1 ! i)) = Some p \<and>
                   is_done p = (t_stage (tasks s1 ! i) = Finished)))"
proof -
  from run_consistent [OF assms init_consistent, of evs1] obtain s1 where
    1: "run env evs1 init = Inr s1" "consistent env s1" by blast
  from run_consistent [OF assms 1(2), of evs2] obtain s2 where
    2: "run env evs2 s1 = Inr s2"
      "\<forall>x q. progress s1 x = Some q \<longrightarrow>
         (\<exists>q'. progress s2 x = Some q' \<and> (is_done q \<longrightarrow> q' = q))"
    by blast
  from 1 2 consistent_result [OF 1(2)] consistent_task_entry [OF 1(2)] show ?thesis by blast
qed

lemma scenario_env_inj: "inj (nanoid_at scenario_env)"
proof (rule injI)
  fix a b
  assume "nanoid_at scenario_env a = nanoid_at scenario_env b"
  then have "length (replicate (Suc a) (CHR ''1'')) = length (replicate (Suc b) (CHR ''1''))"
    by (simp add: scenario_env_def)
  then show "a = b" by simp
qed

lemma run_to_await_get:
  "run scenario_env
     [Submit (scenario_body 100), Settle 0 ClientConnected,
      Settle 0 (ToolResult \<lparr>content = Some [TextContent (Stringified
        (JObj [(''invoice_id'', JStr ''op1''), (''reused'', JBool False)]))]\<rparr>)] init =
   Inr \<lparr>progress = [''op1'' \<mapsto>
          \<lparr>is_done = False, events = [''received'', ''connecting-mcp'', ''invoice-created''],
           result = None\<rparr>],
        tasks = [\<lparr>t_opId = ''op1'',
                  t_data = \<lparr>amount = 100, currency = ''USD'', customer_email = ''a@b.com''\<rparr>,
                  t_stage = AwaitGet (get_request (Some (JStr ''op1'')))\<rparr>],
        nanoid_calls = 1\<rparr>"
  by (simp add: step_def scenario_submitted [OF scenario_env_email] scenario_env_first_id
      resume_task_def try_block_def after_getBillingClient_def after_create_def push_event_def
      JSON_parse_def text_of_def get_property_def)

lemma run_to_finished:
  "run scenario_env
     [Submit (scenario_body 100), Settle 0 ClientConnected,
      Settle 0 (ToolResult \<lparr>content = Some [TextContent (Stringified
        (JObj [(''invoice_id'', JStr ''op1''), (''reused'', JBool False)]))]\<rparr>),
      Settle 0 (ToolResult \<lparr>content = Some [TextContent (Stringified
        (JObj [(''invoice'', JObj [(''id'', JStr ''op1'')])]))]\<rparr>)] init =
   Inr \<lparr>progress = [''op1'' \<mapsto>
          \<lparr>is_done = True,
           events = [''received'', ''connecting-mcp'', ''invoice-created'', ''invoice-fetched''],
           result = Some (JObj [(''invoice'', JObj [(''id'', JStr ''op1'')])])\<rparr>],
        tasks = [\<lparr>t_opId = ''op1'',
                  t_data = \<lparr>amount = 100, currency = ''USD'', customer_email = ''a@b.com''\<rparr>,
                  t_stage = Finished\<rparr>],
        nanoid_calls = 1\<rparr>"
  by (simp add: step_def scenario_submitted [OF scenario_env_email] scenario_env_first_id
      resume_task_def try_block_def after_getBillingClient_def after_create_def after_get_def
      push_event_def JSON_parse_def text_of_def get_property_def)

theorem operation_status_monotonic_witness:
  "inj (nanoid_at scenario_env) \<and>
   (\<exists>s1 s2.
      run scenario_env
        [Submit (scenario_body 100), Settle 0 ClientConnected,
         Settle 0 (ToolResult \<lparr>content = Some [TextContent (Stringified
           (JObj [(''invoice_id'', JStr ''op1''), (''reused'', JBool False)]))]\<rparr>),
         Settle 0 (ToolResult \<lparr>content = Some [TextContent (Stringified
           (JObj [(''invoice'', JObj [(''id'', JStr ''op1'')])]))]\<rparr>)] init = Inr s1 \<and>
      run scenario_env
        [Submit (scenario_body 100), Settle 0 (Rejected JNull), Settle 1 (Rejected JNull)] s1 =
        Inr s2 \<and>
      t_stage (tasks s1 ! 0) = Finished \<and>
      progress s1 ''op1'' =
        Some \<lparr>is_done = True,
              events = [''received'', ''connecting-mcp'', ''invoice-created'', ''invoice-fetched''],
              result = Some (JObj [(''invoice'', JObj [(''id'', JStr ''op1'')])])\<rparr> \<and>
      progress s2 ''op1'' =
        Some \<lparr>is_done = True,
              events = [''received'', ''connecting-mcp'', ''invoice-created'', ''invoice-fetched''],
              result = Some (JObj [(''invoice'', JObj [(''id'', JStr ''op1'')])])\<rparr>)"
proof -
  let ?evs1 = "[Submit (scenario_body 100), Settle 0 ClientConnected,
         Settle 0 (ToolResult \<lparr>content = Some [TextContent (Stringified
           (JObj [(''invoice_id'', JStr ''op1''), (''reused'', JBool False)]))]\<rparr>),
         Settle 0 (ToolResult \<lparr>content = Some [TextContent (Stringified
           (JObj [(''invoice'', JObj [(''id'', JStr ''op1'')])]))]\<rparr>)]"
  let ?evs2 = "[Submit (scenario_body 100), Settle 0 (Rejected JNull), Settle 1 (Rejected JNull)]"
  let ?p = "\<lparr>is_done = True,
              events = [''received'', ''connecting-mcp'', ''invoice-created'', ''invoice-fetched''],
              result = Some (JObj [(''invoice'', JObj [(''id'', JStr ''op1'')])])\<rparr>"
  from operation_status_monotonic [OF scenario_env_inj, of ?evs1 ?evs2]
  obtain s1 s2 where
    r1: "run scenario_env ?evs1 init = Inr s1"
    and r2: "run scenario_env ?evs2 s1 = Inr s2"
    and keep: "\<forall>opId p. progress s1 opId = Some p \<longrightarrow>
              is_done p = (result p \<noteq> None) \<and>
              (\<exists>p2. progress s2 opId = Some p2 \<and> (is_done p \<longrightarrow> p2 = p))"
    and over: "\<forall>i. i < length (tasks s1) \<longrightarrow>
              (\<exists>p. progress s1 (t_opId (tasks s1 ! i)) = Some p \<and>
                   is_done p = (t_stage (tasks s1 ! i) = Finished))"
    by blast
  from r1 have e1: "progress s1 ''op1'' = Some ?p"
    and t1: "0 < length (tasks s1)" "t_opId (tasks s1 ! 0) = ''op1''"
    unfolding run_to_finished by auto
  from over t1 e1 have fin: "t_stage (tasks s1 ! 0) = Finished"
    by fastforce
  from keep e1 have "progress s2 ''op1'' = Some ?p"
    by fastforce
  with r1 r2 e1 fin scenario_env_inj show ?thesis by blast
qed

text \<open>
  Claim C8 as the specification states it fails: the handler stores the new entry with
  \<^verbatim>\<open>progress.set\<close> whether or not the id is already there. When \<^verbatim>\<open>nanoid()\<close> returns
  an id a second time, the entry of that id, done with its result, is pending again and
  has no result.
\<close>

theorem colliding_id_reverts_to_pending:
  "progress_after
     (run colliding_env [Submit (scenario_body 100), Settle 0 (Rejected JNull)] init) ''op1'' =
     Some \<lparr>is_done = True, events = [''received''],
           result = Some (JObj [(''error'', JStr ''unknown'')])\<rparr> \<and>
   progress_after
     (run colliding_env
        [Submit (scenario_body 100), Settle 0 (Rejected JNull), Submit (scenario_body 100)]
        init) ''op1'' =
     Some \<lparr>is_done = False, events = [''received''], result = None\<rparr>"
  by (simp add: progress_after_def step_def post_invoices_def Let_def init_def colliding_env_def
      scenario_body_parses resume_task_def try_block_def catch_block_def message_or_unknown_def)


lemma malformed_create_response_throws:
  assumes "reg (t_opId t) = Some p" and "t_stage t = AwaitCreate req"
    and "content r = None \<or> content r = Some [] \<or>
         (\<exists>c cs. content r = Some (c # cs) \<and>
            ((\<forall>v. text_of c \<noteq> Some (Stringified v)) \<or> text_of c = Some (Stringified JNull)))"
  shows "\<exists>e. try_block t (ToolResult r) reg =
           Some (Inl e, reg(t_opId t \<mapsto> p\<lparr>events := events p @ [''invoice-created'']\<rparr>))"
  using assms
  by (auto simp add: try_block_def after_create_def push_event_known JSON_parse_def
      get_property_def split: option.splits json_text.splits)

lemma malformed_get_response_throws:
  assumes "reg (t_opId t) = Some p" and "t_stage t = AwaitGet req"
    and "content r = Some [] \<or>
         (\<exists>c cs. content r = Some (c # cs) \<and> (\<forall>v. text_of c \<noteq> Some (Stringified v)))"
  shows "\<exists>e. try_block t (ToolResult r) reg =
           Some (Inl e, reg(t_opId t \<mapsto> p\<lparr>events := events p @ [''invoice-fetched'']\<rparr>))"
  using assms
  by (auto simp add: try_block_def after_get_def push_event_known JSON_parse_def
      split: option.splits json_text.splits)

lemma get_response_settles:
  assumes "reg (t_opId t) = Some p" and "t_stage t = AwaitGet req"
  shows "\<exists>p'. resume_task t (ToolResult r) reg =
            Inr (t\<lparr>t_stage := Finished\<rparr>, reg(t_opId t \<mapsto> p')) \<and>
          is_done p' \<and> result p' \<noteq> None \<and>
          events p' = events p @ [''invoice-fetched'']"
proof -
  have tb: "try_block t (ToolResult r) reg = Some (after_get (t_opId t) r reg)"
    using assms(2) by (simp add: try_block_def)
  from after_get_effect [where reg = reg and i = "t_opId t" and p = p and r = r, OF assms(1)]
  show ?thesis
  proof
    assume "\<exists>e. after_get (t_opId t) r reg =
        (Inl e, reg(t_opId t \<mapsto> p\<lparr>events := events p @ [''invoice-fetched'']\<rparr>))"
    then show ?thesis
      by (auto simp add: resume_task_def tb catch_block_def)
  next
    assume "\<exists>v. after_get (t_opId t) r reg =
        (Inr Finished,
         reg(t_opId t \<mapsto> \<lparr>is_done = True, events = events p @ [''invoice-fetched''],
                            result = Some v\<rparr>))"
    then show ?thesis
      by (auto simp add: resume_task_def tb)
  qed
qed

text \<open>
  Claim C2, as the code has it. Every sequence of submissions and settlements runs to a
  state, never to an unhandled rejection. In any state so reached, whenever the \<^verbatim>\<open>try\<close>
  block of a routine throws a value \<open>e\<close> on a settlement, that same step ends with the
  entry of the operation done, its result the object \<^verbatim>\<open>{error: m}\<close> where \<open>m\<close> is the
  message of \<open>e\<close> (or \<^verbatim>\<open>"unknown"\<close>, never an empty value), its event log extended from
  what it was, and the routine over. The throws include every rejected promise (a failed
  connection, a failed tool call), a created-invoice response with no content or with a
  first item that is not parseable text or parses to \<^verbatim>\<open>null\<close>, and a fetched-invoice
  response with an empty content or with a first item that is not parseable text. Any
  answer at all to the fetch request ends the routine with the entry done and a result.
\<close>

theorem background_errors_become_terminal_result:
  "\<exists>st. run env evs init = Inr st \<and>
     (\<forall>i s e reg'.
        i < length (tasks st) \<and>
        try_block (tasks st ! i) s (progress st) = Some (Inl e, reg') \<longrightarrow>
        (\<exists>st' p es.
           step env (Settle i s) st = Inr st' \<and>
           progress st (t_opId (tasks st ! i)) = Some p \<and>
           progress st' (t_opId (tasks st ! i)) =
             Some \<lparr>is_done = True, events = events p @ es,
                   result = Some (JObj [(''error'', message_or_unknown e)])\<rparr> \<and>
           t_stage (tasks st' ! i) = Finished \<and>
           truthy (message_or_unknown e))) \<and>
     (\<forall>i e. i < length (tasks st) \<and> t_stage (tasks st ! i) \<noteq> Finished \<longrightarrow>
        try_block (tasks st ! i) (Rejected e) (progress st) = Some (Inl e, progress st)) \<and>
     (\<forall>i req r.
        i < length (tasks st) \<and> t_stage (tasks st ! i) = AwaitCreate req \<and>
        (content r = None \<or> content r = Some [] \<or>
         (\<exists>c cs. content r = Some (c # cs) \<and>
            ((\<forall>v. text_of c \<noteq> Some (Stringified v)) \<or>
             text_of c = Some (Stringified JNull)))) \<longrightarrow>
        (\<exists>e reg'. try_block (tasks st ! i) (ToolResult r) (progress st) = Some (Inl e, reg'))) \<and>
     (\<forall>i req r.
        i < length (tasks st) \<and> t_stage (tasks st ! i) = AwaitGet req \<and>
        (content r = Some [] \<or>
         (\<exists>c cs. content r = Some (c # cs) \<and> (\<forall>v. text_of c \<noteq> Some (Stringified v)))) \<longrightarrow>
        (\<exists>e reg'. try_block (tasks st ! i) (ToolResult r) (progress st) = Some (Inl e, reg'))) \<and>
     (\<forall>i req r.
        i < length (tasks st) \<and> t_stage (tasks st ! i) = AwaitGet req \<longrightarrow>
        (\<exists>st' p p'.
           step env (Settle i (ToolResult r)) st = Inr st' \<and>
           progress st (t_opId (tasks st ! i)) = Some p \<and>
           progress st' (t_opId (tasks st ! i)) = Some p' \<and>
           is_done p' \<and> result p' \<noteq> None \<and>
           events p' = events p @ [''invoice-fetched''] \<and>
           t_stage (tasks st' ! i) = Finished))"
proof -
  from run_registered [OF init_registered, of env evs] obtain st where
    st: "run env evs init = Inr st" "tasks_registered st" by blast
  have known: "\<exists>p. progress st (t_opId (tasks st ! i)) = Some p" if "i < length (tasks st)" for i
    using st(2) that by (auto simp add: tasks_registered_def list_all_length)
  have caught: "\<exists>st' p es.
           step env (Settle i s) st = Inr st' \<and>
           progress st (t_opId (tasks st ! i)) = Some p \<and>
           progress st' (t_opId (tasks st ! i)) =
             Some \<lparr>is_done = True, events = events p @ es,
                   result = Some (JObj [(''error'', message_or_unknown e)])\<rparr> \<and>
           t_stage (tasks st' ! i) = Finished \<and>
           truthy (message_or_unknown e)"
    if i: "i < length (tasks st)"
      and thrown: "try_block (tasks st ! i) s (progress st) = Some (Inl e, reg')"
    for i s e reg'
  proof -
    from known [OF i] obtain p where p: "progress st (t_opId (tasks st ! i)) = Some p" ..
    from resume_task_caught [where reg = "progress st" and t = "tasks st ! i", OF p thrown]
    obtain es where
      "resume_task (tasks st ! i) s (progress st) =
         Inr ((tasks st ! i)\<lparr>t_stage := Finished\<rparr>,
              (progress st)(t_opId (tasks st ! i) \<mapsto>
                \<lparr>is_done = True, events = events p @ es,
                 result = Some (JObj [(''error'', message_or_unknown e)])\<rparr>))"
      by blast
    with i p show ?thesis
      by (simp add: step_def truthy_message_or_unknown)
  qed
  have rejected: "try_block (tasks st ! i) (Rejected e) (progress st) = Some (Inl e, progress st)"
    if "t_stage (tasks st ! i) \<noteq> Finished" for i e
    using that by (rule try_block_Rejected)
  have bad_create: "\<exists>e reg'. try_block (tasks st ! i) (ToolResult r) (progress st) = Some (Inl e, reg')"
    if i: "i < length (tasks st)" and "t_stage (tasks st ! i) = AwaitCreate req"
      and "content r = None \<or> content r = Some [] \<or>
         (\<exists>c cs. content r = Some (c # cs) \<and>
            ((\<forall>v. text_of c \<noteq> Some (Stringified v)) \<or>
             text_of c = Some (Stringified JNull)))"
    for i req r
  proof -
    from known [OF i] obtain p where p: "progress st (t_opId (tasks st ! i)) = Some p" ..
    from malformed_create_response_throws
      [where reg = "progress st" and t = "tasks st ! i", OF p that(2) that(3)]
    show ?thesis by blast
  qed
  have bad_get: "\<exists>e reg'. try_block (tasks st ! i) (ToolResult r) (progress st) = Some (Inl e, reg')"
    if i: "i < length (tasks st)" and "t_stage (tasks st ! i) = AwaitGet req"
      and "content r = Some [] \<or>
         (\<exists>c cs. content r = Some (c # cs) \<and> (\<forall>v. text_of c \<noteq> Some (Stringified v)))"
    for i req r
  proof -
    from known [OF i] obtain p where p: "progress st (t_opId (tasks st ! i)) = Some p" ..
    from malformed_get_response_throws
      [where reg = "progress st" and t = "tasks st ! i", OF p that(2) that(3)]
    show ?thesis by blast
  qed
  have any_get: "\<exists>st' p p'.
           step env (Settle i (ToolResult r)) st = Inr st' \<and>
           progress st (t_opId (tasks st ! i)) = Some p \<and>
           progress st' (t_opId (tasks st ! i)) = Some p' \<and>
           is_done p' \<and> result p' \<noteq> None \<and>
           events p' = events p @ [''invoice-fetched''] \<and>
           t_stage (tasks st' ! i) = Finished"
    if i: "i < length (tasks st)" and "t_stage (tasks st ! i) = AwaitGet req"
    for i req r
  proof -
    from known [OF i] obtain p where p: "progress st (t_opId (tasks st ! i)) = Some p" ..
    from get_response_settles
      [where reg = "progress st" and t = "tasks st ! i" and r = r, OF p that(2)]
    obtain p' where
      "resume_task (tasks st ! i) (ToolResult r) (progress st) =
         Inr ((tasks st ! i)\<lparr>t_stage := Finished\<rparr>,
              (progress st)(t_opId (tasks st ! i) \<mapsto> p'))"
      "is_done p'" "result p' \<noteq> None" "events p' = events p @ [''invoice-fetched'']"
      by blast
    with i p show ?thesis
      by (simp add: step_def)
  qed
  show ?thesis
  proof (rule exI [of _ st], intro conjI allI impI)
    show "run env evs init = Inr st" by (rule st(1))
  next
    fix i s e reg'
    assume "i < length (tasks st) \<and>
      try_block (tasks st ! i) s (progress st) = Some (Inl e, reg')"
    then show "\<exists>st' p es.
           step env (Settle i s) st = Inr st' \<and>
           progress st (t_opId (tasks st ! i)) = Some p \<and>
           progress st' (t_opId (tasks st ! i)) =
             Some \<lparr>is_done = True, events = events p @ es,
                   result = Some (JObj [(''error'', message_or_unknown e)])\<rparr> \<and>
           t_stage (tasks st' ! i) = Finished \<and>
           truthy (message_or_unknown e)"
      using caught by blast
  next
    fix i e
    assume "i < length (tasks st) \<and> t_stage (tasks st ! i) \<noteq> Finished"
    then show "try_block (tasks st ! i) (Rejected e) (progress st) = Some (Inl e, progress st)"
      using rejected by blast
  next
    fix i req and r :: call_tool_result
    assume "i < length (tasks st) \<and> t_stage (tasks st ! i) = AwaitCreate req \<and>
        (content r = None \<or> content r = Some [] \<or>
         (\<exists>c cs. content r = Some (c # cs) \<and>
            ((\<forall>v. text_of c \<noteq> Some (Stringified v)) \<or>
             text_of c = Some (Stringified JNull))))"
    then show "\<exists>e reg'. try_block (tasks st ! i) (ToolResult r) (progress st) =
        Some (Inl e, reg')"
      using bad_create [of i req r] by blast
  next
    fix i req and r :: call_tool_result
    assume "i < length (tasks st) \<and> t_stage (tasks st ! i) = AwaitGet req \<and>
        (content r = Some [] \<or>
         (\<exists>c cs. content r = Some (c # cs) \<and> (\<forall>v. text_of c \<noteq> Some (Stringified v))))"
    then show "\<exists>e reg'. try_block (tasks st ! i) (ToolResult r) (progress st) =
        Some (Inl e, reg')"
      using bad_get [of i req r] by blast
  next
    fix i req and r :: call_tool_result
    assume "i < length (tasks st) \<and> t_stage (tasks st ! i) = AwaitGet req"
    then show "\<exists>st' p p'.
           step env (Settle i (ToolResult r)) st = Inr st' \<and>
           progress st (t_opId (tasks st ! i)) = Some p \<and>
           progress st' (t_opId (tasks st ! i)) = Some p' \<and>
           is_done p' \<and> result p' \<noteq> None \<and>
           events p' = events p @ [''invoice-fetched''] \<and>
           t_stage (tasks st' ! i) = Finished"
      using any_get [of i req r] by blast
  qed
qed


lemma run_submit:
  "run scenario_env [Submit (scenario_body 100)] init =
     Inr \<lparr>progress = [''op1'' \<mapsto> \<lparr>is_done = False, events = [''received''], result = None\<rparr>],
          tasks = [\<lparr>t_opId = ''op1'',
                    t_data = \<lparr>amount = 100, currency = ''USD'', customer_email = ''a@b.com''\<rparr>,
                    t_stage = AwaitClient\<rparr>],
          nanoid_calls = 1\<rparr>"
  by (simp add: step_def scenario_submitted [OF scenario_env_email] scenario_env_first_id)

theorem background_errors_become_terminal_result_witness:
  "(\<exists>st st' es.
      run scenario_env [Submit (scenario_body 100)] init = Inr st \<and>
      0 < length (tasks st) \<and>
      try_block (tasks st ! 0) (Rejected (Error ''connection closed'')) (progress st) =
        Some (Inl (Error ''connection closed''), progress st) \<and>
      step scenario_env (Settle 0 (Rejected (Error ''connection closed''))) st = Inr st' \<and>
      progress st' ''op1'' =
        Some \<lparr>is_done = True, events = ''received'' # es,
              result = Some (JObj [(''error'', JStr ''connection closed'')])\<rparr> \<and>
      t_stage (tasks st' ! 0) = Finished) \<and>
   (\<exists>st st' reg' es.
      run scenario_env
        [Submit (scenario_body 100), Settle 0 ClientConnected,
         Settle 0 (ToolResult \<lparr>content = Some [TextContent (Stringified
           (JObj [(''invoice_id'', JStr ''op1''), (''reused'', JBool False)]))]\<rparr>)] init =
        Inr st \<and>
      0 < length (tasks st) \<and>
      t_stage (tasks st ! 0) = AwaitGet (get_request (Some (JStr ''op1''))) \<and>
      try_block (tasks st ! 0) (ToolResult \<lparr>content = Some []\<rparr>) (progress st) =
        Some (Inl TypeError, reg') \<and>
      step scenario_env (Settle 0 (ToolResult \<lparr>content = Some []\<rparr>)) st = Inr st' \<and>
      progress st' ''op1'' =
        Some \<lparr>is_done = True,
              events = [''received'', ''connecting-mcp'', ''invoice-created''] @ es,
              result = Some (JObj [(''error'', JStr ''Cannot read properties of undefined'')])\<rparr> \<and>
      t_stage (tasks st' ! 0) = Finished)"
proof
  let ?e = "Error ''connection closed''"
  from background_errors_become_terminal_result [of scenario_env "[Submit (scenario_body 100)]"]
  obtain st where
    run: "run scenario_env [Submit (scenario_body 100)] init = Inr st"
    and caught: "\<forall>i s e reg'.
        i < length (tasks st) \<and>
        try_block (tasks st ! i) s (progress st) = Some (Inl e, reg') \<longrightarrow>
        (\<exists>st' p es.
           step scenario_env (Settle i s) st = Inr st' \<and>
           progress st (t_opId (tasks st ! i)) = Some p \<and>
           progress st' (t_opId (tasks st ! i)) =
             Some \<lparr>is_done = True, events = events p @ es,
                   result = Some (JObj [(''error'', message_or_unknown e)])\<rparr> \<and>
           t_stage (tasks st' ! i) = Finished \<and>
           truthy (message_or_unknown e))"
    and rejected: "\<forall>i e. i < length (tasks st) \<and> t_stage (tasks st ! i) \<noteq> Finished \<longrightarrow>
        try_block (tasks st ! i) (Rejected e) (progress st) = Some (Inl e, progress st)"
    by blast
  from run have st: "st =
      \<lparr>progress = [''op1'' \<mapsto> \<lparr>is_done = False, events = [''received''], result = None\<rparr>],
       tasks = [\<lparr>t_opId = ''op1'',
                 t_data = \<lparr>amount = 100, currency = ''USD'', customer_email = ''a@b.com''\<rparr>,
                 t_stage = AwaitClient\<rparr>],
       nanoid_calls = 1\<rparr>"
    unfolding run_submit by simp
  have i: "0 < length (tasks st)" and stage: "t_stage (tasks st ! 0) \<noteq> Finished"
    and opId: "t_opId (tasks st ! 0) = ''op1''"
    and entry: "progress st ''op1'' =
      Some \<lparr>is_done = False, events = [''received''], result = None\<rparr>"
    by (simp_all add: st)
  from rejected i stage
  have thrown: "try_block (tasks st ! 0) (Rejected ?e) (progress st) = Some (Inl ?e, progress st)"
    by blast
  with caught i obtain st' p es where
    step: "step scenario_env (Settle 0 (Rejected ?e)) st = Inr st'"
    and before: "progress st (t_opId (tasks st ! 0)) = Some p"
    and after: "progress st' (t_opId (tasks st ! 0)) =
             Some \<lparr>is_done = True, events = events p @ es,
                   result = Some (JObj [(''error'', message_or_unknown ?e)])\<rparr>"
    and over: "t_stage (tasks st' ! 0) = Finished"
    by blast
  have msg: "message_or_unknown ?e = JStr ''connection closed''"
    by (simp add: message_or_unknown_def Error_def truthy_def)
  from before after entry have "progress st' ''op1'' =
      Some \<lparr>is_done = True, events = ''received'' # es,
            result = Some (JObj [(''error'', JStr ''connection closed'')])\<rparr>"
    by (auto simp add: opId msg)
  with run i thrown step over
  show "\<exists>st st' es.
      run scenario_env [Submit (scenario_body 100)] init = Inr st \<and>
      0 < length (tasks st) \<and>
      try_block (tasks st ! 0) (Rejected (Error ''connection closed'')) (progress st) =
        Some (Inl (Error ''connection closed''), progress st) \<and>
      step scenario_env (Settle 0 (Rejected (Error ''connection closed''))) st = Inr st' \<and>
      progress st' ''op1'' =
        Some \<lparr>is_done = True, events = ''received'' # es,
              result = Some (JObj [(''error'', JStr ''connection closed'')])\<rparr> \<and>
      t_stage (tasks st' ! 0) = Finished"
    by blast
next
  let ?evs = "[Submit (scenario_body 100), Settle 0 ClientConnected,
         Settle 0 (ToolResult \<lparr>content = Some [TextContent (Stringified
           (JObj [(''invoice_id'', JStr ''op1''), (''reused'', JBool False)]))]\<rparr>)]"
  let ?bad = "ToolResult \<lparr>content = Some []\<rparr>"
  from background_errors_become_terminal_result [of scenario_env ?evs]
  obtain st where
    run: "run scenario_env ?evs init = Inr st"
    and caught: "\<forall>i s e reg'.
        i < length (tasks st) \<and>
        try_block (tasks st ! i) s (progress st) = Some (Inl e, reg') \<longrightarrow>
        (\<exists>st' p es.
           step scenario_env (Settle i s) st = Inr st' \<and>
           progress st (t_opId (tasks st ! i)) = Some p \<and>
           progress st' (t_opId (tasks st ! i)) =
             Some \<lparr>is_done = True, events = events p @ es,
                   result = Some (JObj [(''error'', message_or_unknown e)])\<rparr> \<and>
           t_stage (tasks st' ! i) = Finished \<and>
           truthy (message_or_unknown e))"
    by blast
  from run have st: "st =
      \<lparr>progress = [''op1'' \<mapsto>
          \<lparr>is_done = False, events = [''received'', ''connecting-mcp'', ''invoice-created''],
           result = None\<rparr>],
        tasks = [\<lparr>t_opId = ''op1'',
                  t_data = \<lparr>amount = 100, currency = ''USD'', customer_email = ''a@b.com''\<rparr>,
                  t_stage = AwaitGet (get_request (Some (JStr ''op1'')))\<rparr>],
        nanoid_calls = 1\<rparr>"
    unfolding run_to_await_get by simp
  have i: "0 < length (tasks st)"
    and stage: "t_stage (tasks st ! 0) = AwaitGet (get_request (Some (JStr ''op1'')))"
    and opId: "t_opId (tasks st ! 0) = ''op1''"
    and entry: "progress st ''op1'' =
      Some \<lparr>is_done = False, events = [''received'', ''connecting-mcp'', ''invoice-created''],
            result = None\<rparr>"
    by (simp_all add: st)
  obtain reg' where thrown:
    "try_block (tasks st ! 0) ?bad (progress st) = Some (Inl TypeError, reg')"
    by (simp add: st try_block_def after_get_def push_event_def)
  with caught i obtain st' p es where
    step: "step scenario_env (Settle 0 ?bad) st = Inr st'"
    and before: "progress st (t_opId (tasks st ! 0)) = Some p"
    and after: "progress st' (t_opId (tasks st ! 0)) =
             Some \<lparr>is_done = True, events = events p @ es,
                   result = Some (JObj [(''error'', message_or_unknown TypeError)])\<rparr>"
    and over: "t_stage (tasks st' ! 0) = Finished"
    by blast
  have msg: "message_or_unknown TypeError = JStr ''Cannot read properties of undefined''"
    by (simp add: message_or_unknown_def TypeError_def Error_def truthy_def)
  from before after entry have "progress st' ''op1'' =
      Some \<lparr>is_done = True,
            events = [''received'', ''connecting-mcp'', ''invoice-created''] @ es,
            result = Some (JObj [(''error'', JStr ''Cannot read properties of undefined'')])\<rparr>"
    by (auto simp add: opId msg)
  with run i stage thrown step over
  show "\<exists>st st' reg' es.
      run scenario_env ?evs init = Inr st \<and>
      0 < length (tasks st) \<and>
      t_stage (tasks st ! 0) = AwaitGet (get_request (Some (JStr ''op1''))) \<and>
      try_block (tasks st ! 0) ?bad (progress st) = Some (Inl TypeError, reg') \<and>
      step scenario_env (Settle 0 ?bad) st = Inr st' \<and>
      progress st' ''op1'' =
        Some \<lparr>is_done = True,
              events = [''received'', ''connecting-mcp'', ''invoice-created''] @ es,
              result = Some (JObj [(''error'', JStr ''Cannot read properties of undefined'')])\<rparr> \<and>
      t_stage (tasks st' ! 0) = Finished"
    by blast
qed

text \<open>
  Claim C2 as the specification states it fails: when the connection fails with the
  message \<^verbatim>\<open>connection closed\<close>, the operation ends done with the result
  \<^verbatim>\<open>{error: "connection closed"}\<close>, and that payload has no field named \<^verbatim>\<open>message\<close>.
\<close>

theorem error_payload_has_no_message_field:
  "progress_after
     (run scenario_env
        [Submit (scenario_body 100), Settle 0 (Rejected (Error ''connection closed''))] init)
     ''op1'' =
     Some \<lparr>is_done = True, events = [''received''],
           result = Some (JObj [(''error'', JStr ''connection closed'')])\<rparr> \<and>
   get_property (JObj [(''error'', JStr ''connection closed'')]) ''message'' = Inr None"
  by (simp add: progress_after_def step_def scenario_submitted [OF scenario_env_email]
      scenario_env_first_id resume_task_def try_block_def catch_block_def message_or_unknown_def
      Error_def truthy_def get_property_def)


end
